theory Spec2Isabelle
  imports Main "HOL-Library.Sublist" "HOL-Library.AList"
begin

section \<open>Python strings and integers\<close>

text \<open>
  The generator of \<^verbatim>\<open>xsd_to_xml.py\<close> works on Python strings. They are modelled as
  \<^typ>\<open>string\<close>; the schema's names and values are ASCII in every place a theorem below looks at
  them. \<^verbatim>\<open>str.lower\<close> maps the letters A to Z to a to z and leaves every other character.
\<close>

definition lower_char :: "char \<Rightarrow> char" where
  "lower_char c =
     (case map_of (zip ''ABCDEFGHIJKLMNOPQRSTUVWXYZ'' ''abcdefghijklmnopqrstuvwxyz'') c of
        None \<Rightarrow> c
      | Some d \<Rightarrow> d)"

definition lower :: "string \<Rightarrow> string" where
  "lower s = map lower_char s"

text \<open>\<^verbatim>\<open>s.startswith(p)\<close>.\<close>

definition startswith :: "string \<Rightarrow> string \<Rightarrow> bool" where
  "startswith s p = prefix p s"

text \<open>\<^verbatim>\<open>s.split(sep)\<close> for a one-character separator: never the empty list.\<close>

fun split :: "char \<Rightarrow> string \<Rightarrow> string list" where
  "split sep [] = [[]]"
| "split sep (c # cs) =
     (if c = sep then [] # split sep cs
      else (case split sep cs of
              [] \<Rightarrow> [[c]]
            | p # ps \<Rightarrow> (c # p) # ps))"

text \<open>Python's truth value of an optional string: \<^verbatim>\<open>None\<close> and \<^verbatim>\<open>""\<close> are false.\<close>

fun truthy :: "string option \<Rightarrow> bool" where
  "truthy None = False"
| "truthy (Some s) = (s \<noteq> [])"

text \<open>\<^verbatim>\<open>str(n)\<close> for an integer: decimal digits, a minus sign when negative.\<close>

definition digit_char :: "nat \<Rightarrow> char" where
  "digit_char d = ''0123456789'' ! d"

fun str_nat :: "nat \<Rightarrow> string" where
  "str_nat n =
     (if n < 10 then [digit_char n] else str_nat (n div 10) @ [digit_char (n mod 10)])"

declare str_nat.simps [simp del]

definition str_int :: "int \<Rightarrow> string" where
  "str_int i = (if i < 0 then CHR ''-'' # str_nat (nat (- i)) else str_nat (nat i))"

text \<open>A number printed on at least \<open>w\<close> digits, as \<^verbatim>\<open>%02d\<close> and \<^verbatim>\<open>%04d\<close> do.\<close>

definition zpad :: "nat \<Rightarrow> nat \<Rightarrow> string" where
  "zpad w n = replicate (w - length (str_nat n)) CHR ''0'' @ str_nat n"

text \<open>
  \<^verbatim>\<open>int(s)\<close> on a string: blanks around it are dropped, one sign is allowed, then decimal
  digits, single underscores between digits allowed. Anything else raises \<^verbatim>\<open>ValueError\<close>.
\<close>

datatype error =
    ValueError string
  | TypeError string
  | AttributeError string
  | IndexError
  | RecursionError
  | PathSyntaxError string

definition is_space :: "char \<Rightarrow> bool" where
  "is_space c = (c \<in> set [CHR '' '', CHR 0x09, CHR 0x0A, CHR 0x0B, CHR 0x0C, CHR 0x0D,
                            CHR 0x1C, CHR 0x1D, CHR 0x1E, CHR 0x1F])"

definition strip :: "string \<Rightarrow> string" where
  "strip s = rev (dropWhile is_space (rev (dropWhile is_space s)))"

definition digit_value :: "char \<Rightarrow> nat option" where
  "digit_value c = map_of (zip ''0123456789'' [0, 1, 2, 3, 4, 5, 6, 7, 8, 9]) c"

text \<open>
  The digits of a literal, most significant first; \<open>prev\<close> tells whether the character before
  was a digit, which is what an underscore needs on its left.
\<close>

fun digits :: "bool \<Rightarrow> string \<Rightarrow> nat list option" where
  "digits prev [] = (if prev then Some [] else None)"
| "digits prev (c # cs) =
     (if c = CHR ''_'' then (if prev then digits False cs else None)
      else (case digit_value c of
              None \<Rightarrow> None
            | Some d \<Rightarrow> map_option ((#) d) (digits True cs)))"

definition py_int :: "string \<Rightarrow> error + int" where
  "py_int s =
     (let t = strip s;
          neg = (t \<noteq> [] \<and> hd t = CHR ''-'');
          body = (if t \<noteq> [] \<and> (hd t = CHR ''-'' \<or> hd t = CHR ''+'') then tl t else t)
      in case (if body = [] then None else digits False body) of
           None \<Rightarrow> Inl (ValueError ''invalid literal for int() with base 10'')
         | Some ds \<Rightarrow>
             (let n = int (foldl (\<lambda>a d. 10 * a + d) 0 ds) in Inr (if neg then - n else n)))"

text \<open>\<^verbatim>\<open>xs[i]\<close>: a negative index counts from the end, an index out of range raises.\<close>

definition item :: "'a list \<Rightarrow> int \<Rightarrow> error + 'a" where
  "item xs i =
     (if 0 \<le> i \<and> i < int (length xs) then Inr (xs ! nat i)
      else if i < 0 \<and> - i \<le> int (length xs) then Inr (xs ! nat (int (length xs) + i))
      else Inl IndexError)"

text \<open>Sequencing of steps that may raise: the first error ends the run.\<close>

definition and_then :: "'e + 'a \<Rightarrow> ('a \<Rightarrow> 'e + 'b) \<Rightarrow> 'e + 'b" where
  "and_then r f = (case r of Inl e \<Rightarrow> Inl e | Inr x \<Rightarrow> f x)"

section \<open>Randomness, the clock and the warnings\<close>

text \<open>
  A run reads Python's \<^verbatim>\<open>random\<close> module and the system clock and prints warnings. The
  \<open>world\<close> makes the three explicit. Every call of \<^verbatim>\<open>random\<close> returns a value that no
  other call constrains, so each call reads the next entry of an oracle: the calls that decide
  how many instances of an element are made read \<open>occ\<close>, the calls that choose a value read
  \<open>val\<close>. The clock is read from \<open>clock\<close> the same way, and \<open>log\<close> collects what is printed.
\<close>

record datetime =
  year :: nat
  month :: nat
  day :: nat
  hour :: nat
  minute :: nat
  second :: nat

datatype message =
    GroupSkipped "string option" string
  | ChoiceEmpty string
  | ComplexContentRestriction string
  | ComplexContentEmpty string
  | SimpleContentEmpty string
  | UnhandledContentModel string string
  | AttributeWithoutNameOrRef string
  | AttributeGroupSkipped string
  | UnnamedElementSkipped string
  | UsingFirstGlobalElement "string option"

record world =
  occ :: "nat \<Rightarrow> nat"
  occ_pos :: nat
  val :: "nat \<Rightarrow> nat"
  val_pos :: nat
  clock :: "nat \<Rightarrow> datetime"
  clock_pos :: nat
  log :: "message list"

definition print :: "message \<Rightarrow> world \<Rightarrow> world" where
  "print m w = w\<lparr>log := log w @ [m]\<rparr>"

text \<open>
  \<^verbatim>\<open>random.randint(a, b)\<close> returns one of \<open>a, \<dots>, b\<close> and raises \<^verbatim>\<open>ValueError\<close> on an
  empty range. \<open>pick_int a b r\<close> is the value that the draw \<open>r\<close> stands for; every value of
  the range is some draw's.
\<close>

definition pick_int :: "int \<Rightarrow> int \<Rightarrow> nat \<Rightarrow> int" where
  "pick_int a b r = a + int (r mod nat (b - a + 1))"

definition randint :: "int \<Rightarrow> int \<Rightarrow> world \<Rightarrow> error + int \<times> world" where
  "randint a b w =
     (if b < a then Inl (ValueError ''empty range for randrange()'')
      else Inr (pick_int a b (occ w (occ_pos w)), w\<lparr>occ_pos := occ_pos w + 1\<rparr>))"

text \<open>\<^verbatim>\<open>random.random() < 0.5\<close>: one draw, both answers possible.\<close>

definition random_below_half :: "world \<Rightarrow> bool \<times> world" where
  "random_below_half w = (even (occ w (occ_pos w)), w\<lparr>occ_pos := occ_pos w + 1\<rparr>)"

text \<open>\<^verbatim>\<open>random.choice(xs)\<close>: raises \<^verbatim>\<open>IndexError\<close> on an empty sequence.\<close>

definition choice :: "'a list \<Rightarrow> world \<Rightarrow> error + 'a \<times> world" where
  "choice xs w =
     (if xs = [] then Inl IndexError
      else Inr (xs ! (val w (val_pos w) mod length xs), w\<lparr>val_pos := val_pos w + 1\<rparr>))"

section \<open>The value synthesizer: \<^verbatim>\<open>generate_sample_value\<close>\<close>

text \<open>
  \<^verbatim>\<open>f"{random.uniform(1.0, 1000.0):.kf}"\<close>: the float is taken as rounded to \<open>k\<close> decimals, a
  number of \<open>10\<^sup>-\<^sup>k\<close> units between 1 and 1000, and printed with exactly \<open>k\<close> decimals.
\<close>

definition uniform_fixed :: "nat \<Rightarrow> nat \<Rightarrow> string" where
  "uniform_fixed k r =
     (let u = 10 ^ k + r mod (999 * 10 ^ k + 1)
      in str_nat (u div 10 ^ k) @ ''.'' @ zpad k (u mod 10 ^ k))"

text \<open>The formats of the clock readings (years of four digits).\<close>

definition fmt_date :: "datetime \<Rightarrow> string" where
  "fmt_date t = zpad 4 (year t) @ ''-'' @ zpad 2 (month t) @ ''-'' @ zpad 2 (day t)"

definition fmt_time :: "datetime \<Rightarrow> string" where
  "fmt_time t = zpad 2 (hour t) @ '':'' @ zpad 2 (minute t) @ '':'' @ zpad 2 (second t)"

definition val_at :: "world \<Rightarrow> nat \<Rightarrow> nat" where
  "val_at w i = val w (val_pos w + i)"

definition clock_at :: "world \<Rightarrow> nat \<Rightarrow> datetime" where
  "clock_at w i = clock w (clock_pos w + i)"

text \<open>
  The dictionary literal \<^verbatim>\<open>type_map\<close>. Python evaluates every entry on every call, in the
  order written: fifteen random draws and eight clock readings, whatever type is asked for.
  The ranges of the \<^verbatim>\<open>randint\<close> calls are constants and not empty.
\<close>

definition type_map :: "world \<Rightarrow> (string \<times> string) list" where
  "type_map w =
    [(''string'', ''sample_string''),
     (''normalizedstring'', ''sample_normalized_string''),
     (''token'', ''sample_token''),
     (''boolean'', [''true'', ''false''] ! (val_at w 0 mod 2)),
     (''decimal'', uniform_fixed 2 (val_at w 1)),
     (''integer'', str_int (pick_int 1 1000 (val_at w 2))),
     (''long'', str_int (pick_int 1000 100000 (val_at w 3))),
     (''int'', str_int (pick_int 1 1000 (val_at w 4))),
     (''short'', str_int (pick_int 1 100 (val_at w 5))),
     (''byte'', str_int (pick_int 0 127 (val_at w 6))),
     (''nonnegativeinteger'', str_int (pick_int 0 1000 (val_at w 7))),
     (''positiveinteger'', str_int (pick_int 1 1000 (val_at w 8))),
     (''nonpositiveinteger'', str_int (pick_int (- 1000) 0 (val_at w 9))),
     (''negativeinteger'', str_int (pick_int (- 1000) (- 1) (val_at w 10))),
     (''double'', uniform_fixed 4 (val_at w 11)),
     (''float'', uniform_fixed 4 (val_at w 12)),
     (''duration'', ''P1Y2M3DT4H5M6S''),
     (''datetime'', fmt_date (clock_at w 0) @ ''T'' @ fmt_time (clock_at w 0) @ ''+00:00''),
     (''time'', fmt_time (clock_at w 1)),
     (''date'', fmt_date (clock_at w 2)),
     (''gyearmonth'', zpad 4 (year (clock_at w 3)) @ ''-'' @ zpad 2 (month (clock_at w 3))),
     (''gyear'', zpad 4 (year (clock_at w 4))),
     (''gmonthday'', ''--'' @ zpad 2 (month (clock_at w 5)) @ ''-'' @ zpad 2 (day (clock_at w 5))),
     (''gday'', ''---'' @ zpad 2 (day (clock_at w 6))),
     (''gmonth'', ''--'' @ zpad 2 (month (clock_at w 7)) @ ''--''),
     (''hexbinary'', ''0FB7''),
     (''base64binary'', ''AQIDBA==''),
     (''anyuri'', ''http://example.com/resource''),
     (''qname'', ''tns:sampleQName''),
     (''notation'', ''sample_notation''),
     (''id'', ''id'' @ str_int (pick_int 1000 9999 (val_at w 13))),
     (''idref'', ''idref'' @ str_int (pick_int 1000 9999 (val_at w 14))),
     (''idrefs'', ''idrefs_1 idrefs_2''),
     (''nmtoken'', ''sample_NMTOKEN''),
     (''nmtokens'', ''sample_NMTOKEN_1 sample_NMTOKEN_2''),
     (''name'', ''sample_Name''),
     (''ncname'', ''sampleNCName''),
     (''language'', ''en-US''),
     (''entity'', ''entity_name''),
     (''entities'', ''entity_name_1 entity_name_2''),
     (''notations'', ''notation_1 notation_2''),
     (''anysimpletype'', ''any_simple_type_value'')]"

definition after_type_map :: "world \<Rightarrow> world" where
  "after_type_map w = w\<lparr>val_pos := val_pos w + 15, clock_pos := clock_pos w + 8\<rparr>"

text \<open>
  \<^verbatim>\<open>type_map.get(xsd_type_name.lower(), f"UNKNOWN_TYPE_{xsd_type_name}")\<close>. The argument is
  \<^verbatim>\<open>None\<close> when type resolution found no name; \<^verbatim>\<open>None.lower()\<close> raises.
\<close>

definition generate_sample_value :: "string option \<Rightarrow> world \<Rightarrow> error + string \<times> world" where
  "generate_sample_value xsd_type_name w =
     (case xsd_type_name of
        None \<Rightarrow> Inl (AttributeError ''NoneType object has no attribute lower'')
      | Some n \<Rightarrow>
          Inr (case map_of (type_map w) (lower n) of
                 Some v \<Rightarrow> v
               | None \<Rightarrow> ''UNKNOWN_TYPE_'' @ n,
               after_type_map w))"

text \<open>The keys of \<^verbatim>\<open>type_map\<close>: the names of the built-in types the synthesizer knows.\<close>

definition builtin_type_names :: "string list" where
  "builtin_type_names =
    [''string'', ''normalizedstring'', ''token'', ''boolean'', ''decimal'', ''integer'', ''long'',
     ''int'', ''short'', ''byte'', ''nonnegativeinteger'', ''positiveinteger'',
     ''nonpositiveinteger'', ''negativeinteger'', ''double'', ''float'', ''duration'',
     ''datetime'', ''time'', ''date'', ''gyearmonth'', ''gyear'', ''gmonthday'', ''gday'',
     ''gmonth'', ''hexbinary'', ''base64binary'', ''anyuri'', ''qname'', ''notation'', ''id'',
     ''idref'', ''idrefs'', ''nmtoken'', ''nmtokens'', ''name'', ''ncname'', ''language'',
     ''entity'', ''entities'', ''notations'', ''anysimpletype'']"

section \<open>The schema tree and the generated document\<close>

text \<open>
  The parsed schema is an lxml tree. A node has a tag (with the namespace in braces, as lxml
  writes it), its attributes and its children in document order. A comment or a processing
  instruction is a child too; its tag is no string in lxml, so here it is a node whose tag is
  none of the schema's.
\<close>

datatype xsd = Node (tag: string) (attrib: "(string \<times> string) list") (children: "xsd list")

definition XSD_NAMESPACE :: string where
  "XSD_NAMESPACE = ''{http://www.w3.org/2001/XMLSchema}''"

text \<open>\<^verbatim>\<open>node.get(key)\<close>, \<^verbatim>\<open>node.find(XSD_NAMESPACE + name)\<close> and \<^verbatim>\<open>node.findall(...)\<close>.\<close>

definition get :: "xsd \<Rightarrow> string \<Rightarrow> string option" where
  "get n k = map_of (attrib n) k"

definition find_xsd :: "xsd \<Rightarrow> string \<Rightarrow> xsd option" where
  "find_xsd n name = List.find (\<lambda>c. tag c = XSD_NAMESPACE @ name) (children n)"

definition findall :: "xsd \<Rightarrow> string \<Rightarrow> xsd list" where
  "findall n name = filter (\<lambda>c. tag c = XSD_NAMESPACE @ name) (children n)"

text \<open>\<^verbatim>\<open>if s:\<close> on an optional string, keeping the string for the branch that uses it.\<close>

definition nonempty :: "string option \<Rightarrow> string option" where
  "nonempty s = (if truthy s then s else None)"

text \<open>
  The truth value of an lxml element is whether it has children. \<open>if_true a\<close> is \<open>a\<close> when
  Python takes \<open>a\<close> for true; \<^verbatim>\<open>a or b\<close> is \<open>a\<close> then, and \<open>b\<close> otherwise.
\<close>

definition if_true :: "xsd option \<Rightarrow> xsd option" where
  "if_true a = (case a of None \<Rightarrow> None | Some n \<Rightarrow> if children n = [] then None else Some n)"

definition py_or :: "xsd option \<Rightarrow> xsd option \<Rightarrow> xsd option" where
  "py_or a b = (case if_true a of Some n \<Rightarrow> Some n | None \<Rightarrow> b)"

text \<open>
  The generated element: tag, attributes in the order they were first set, text, children.
  \<^verbatim>\<open>element.set(k, v)\<close> replaces the value of a key that is there and appends a new one. The
  names are those of a schema that lxml has validated, so lxml accepts each of them as a tag
  or attribute name.
\<close>

datatype xml =
  Elem (xtag: string) (xattrib: "(string \<times> string) list") (xtext: "string option")
    (xchildren: "xml list")

definition set_attr :: "string \<Rightarrow> string \<Rightarrow> xml \<Rightarrow> xml" where
  "set_attr k v e = Elem (xtag e) (AList.update k v (xattrib e)) (xtext e) (xchildren e)"

definition set_text :: "string option \<Rightarrow> xml \<Rightarrow> xml" where
  "set_text t e = Elem (xtag e) (xattrib e) t (xchildren e)"

definition add_child :: "xml \<Rightarrow> xml \<Rightarrow> xml" where
  "add_child parent c = Elem (xtag parent) (xattrib parent) (xtext parent) (xchildren parent @ [c])"

text \<open>A \<^verbatim>\<open>for\<close> loop over a list, the state threaded through, stopped by the first error.\<close>

fun for_each :: "('a \<Rightarrow> 's \<Rightarrow> 'e + 's) \<Rightarrow> 'a list \<Rightarrow> 's \<Rightarrow> 'e + 's" where
  "for_each f [] s = Inr s"
| "for_each f (x # xs) s = and_then (f x s) (for_each f xs)"

section \<open>The type registry and the type resolver\<close>

record generator =
  schema_doc :: xsd
  complex_types :: "string \<rightharpoonup> xsd"
  simple_types :: "string \<rightharpoonup> xsd"

text \<open>\<^verbatim>\<open>_get_global_definitions\<close>: the named children of the schema root, a later one winning.\<close>

definition get_global_definitions :: "xsd \<Rightarrow> string \<Rightarrow> (string \<rightharpoonup> xsd)" where
  "get_global_definitions root tag_name =
     fold (\<lambda>definition definitions.
             case nonempty (get definition ''name'') of
               Some name \<Rightarrow> definitions(name \<mapsto> definition)
             | None \<Rightarrow> definitions)
       (findall root tag_name) Map.empty"

text \<open>\<^verbatim>\<open>__init__\<close>, once the document is parsed and lxml has accepted it as a schema.\<close>

definition init :: "xsd \<Rightarrow> generator" where
  "init root =
     \<lparr>schema_doc = root,
      complex_types = get_global_definitions root ''complexType'',
      simple_types = get_global_definitions root ''simpleType''\<rparr>"

definition get_type_definition :: "generator \<Rightarrow> string option \<Rightarrow> xsd option" where
  "get_type_definition g type_name =
     (case type_name of
        None \<Rightarrow> None
      | Some t \<Rightarrow>
          if startswith t ''xs:'' then None
          else (case complex_types g t of
                  Some d \<Rightarrow> Some d
                | None \<Rightarrow> (case simple_types g t of Some d \<Rightarrow> Some d | None \<Rightarrow> None)))"

text \<open>
  \<^verbatim>\<open>_get_xsd_type_name\<close>, lines 134 to 139: the name a \<^verbatim>\<open>type\<close> attribute stands for.
\<close>

definition type_attr_name :: "string \<Rightarrow> error + string option" where
  "type_attr_name type_attr =
     (if startswith type_attr ''xs:'' then
        and_then (item (split CHR '':'' type_attr) 1) (\<lambda>t. Inr (Some t))
      else if CHR '':'' \<in> set type_attr then
        and_then (item (split CHR '':'' type_attr) (- 1)) (\<lambda>t. Inr (Some t))
      else Inr (Some type_attr))"

text \<open>
  Lines 158 to 164 and, word for word, 171 to 177: the name a \<^verbatim>\<open>base\<close> attribute stands
  for. With no \<^verbatim>\<open>base\<close> the first test is false and the second, \<^verbatim>\<open>":" in base_type\<close>,
  raises \<^verbatim>\<open>TypeError\<close>: a string is searched in \<^verbatim>\<open>None\<close>.
\<close>

definition name_of_base :: "string option \<Rightarrow> error + string option" where
  "name_of_base base_type =
     (case base_type of
        None \<Rightarrow> Inl (TypeError ''argument of type NoneType is not iterable'')
      | Some b \<Rightarrow>
          if b \<noteq> [] \<and> startswith b ''xs:'' then
            and_then (item (split CHR '':'' b) 1) (\<lambda>t. Inr (Some t))
          else if CHR '':'' \<in> set b then
            and_then (item (split CHR '':'' b) (- 1)) (\<lambda>t. Inr (Some t))
          else Inr (Some (if b \<noteq> [] then b else ''string'')))"

definition get_xsd_type_name :: "xsd \<Rightarrow> error + string option" where
  "get_xsd_type_name xsd_element =
     (case nonempty (get xsd_element ''type'') of
        Some type_attr \<Rightarrow> type_attr_name type_attr
      | None \<Rightarrow>
     (case nonempty (get xsd_element ''ref'') of
        Some ref_attr \<Rightarrow> Inr (Some ''string'')
      | None \<Rightarrow>
     (case find_xsd xsd_element ''complexType'' of
        Some complex_type_def \<Rightarrow>
          (case find_xsd complex_type_def ''simpleContent'' of
             Some simple_content_def \<Rightarrow>
               (case find_xsd simple_content_def ''extension'' of
                  Some extension_def \<Rightarrow> name_of_base (get extension_def ''base'')
                | None \<Rightarrow> Inr None)
           | None \<Rightarrow> Inr None)
      | None \<Rightarrow>
     (case find_xsd xsd_element ''simpleType'' of
        Some simple_type_def \<Rightarrow>
          (case find_xsd simple_type_def ''restriction'' of
             Some restriction \<Rightarrow> name_of_base (get restriction ''base'')
           | None \<Rightarrow> Inr None)
      | None \<Rightarrow> Inr (Some ''string'')))))"

section \<open>The occurrence sampler\<close>

datatype max_occurs = Unbounded | Bounded int

text \<open>\<^verbatim>\<open>_get_occurrence\<close>: \<^verbatim>\<open>int(...)\<close> raises on an attribute that is no integer literal.\<close>

definition get_occurrence :: "xsd \<Rightarrow> error + int \<times> max_occurs" where
  "get_occurrence xsd_node =
     and_then (case get xsd_node ''minOccurs'' of None \<Rightarrow> Inr 1 | Some s \<Rightarrow> py_int s)
       (\<lambda>min_occurs.
          let max_occurs_str = (case get xsd_node ''maxOccurs'' of None \<Rightarrow> ''1'' | Some s \<Rightarrow> s)
          in if max_occurs_str = ''unbounded'' then Inr (min_occurs, Unbounded)
             else and_then (py_int max_occurs_str) (\<lambda>m. Inr (min_occurs, Bounded m)))"

text \<open>
  Lines 353 to 364 of \<^verbatim>\<open>_generate_xml_element\<close>: the number of instances to make, once the
  bounds are read and are not both zero.
\<close>

definition num_occurrences :: "int \<Rightarrow> max_occurs \<Rightarrow> world \<Rightarrow> error + int \<times> world" where
  "num_occurrences min_occurs max_occurs w =
     (case max_occurs of
        Unbounded \<Rightarrow>
          and_then (randint min_occurs (min (min_occurs + 1) 2) w)
            (\<lambda>(n, w'). Inr (if n = 0 \<and> min_occurs = 0 then 1 else n, w'))
      | Bounded m \<Rightarrow>
          if m > 1 then
            and_then (randint min_occurs m w)
              (\<lambda>(n, w'). Inr (if n = 0 \<and> min_occurs = 0 then 1 else n, w'))
          else if min_occurs = 0 then
            (case random_below_half w of (skip, w') \<Rightarrow> Inr (if skip then 0 else 1, w'))
          else Inr (1, w))"

section \<open>Attributes\<close>

text \<open>The body of the first loop of \<^verbatim>\<open>_process_attributes\<close>, lines 308 to 324.\<close>

definition process_attribute :: "xsd \<Rightarrow> xsd \<Rightarrow> xml \<times> world \<Rightarrow> error + xml \<times> world" where
  "process_attribute xsd_definition attr = (\<lambda>(xml_element, w).
     case nonempty (get attr ''name'') of
       Some attr_name \<Rightarrow>
         and_then (get_xsd_type_name attr) (\<lambda>attr_type.
         and_then (generate_sample_value attr_type w) (\<lambda>(attr_value, w').
         Inr (set_attr attr_name attr_value xml_element, w')))
     | None \<Rightarrow>
         (case nonempty (get attr ''ref'') of
            Some ref_attr \<Rightarrow>
              and_then (item (split CHR '':'' ref_attr) (- 1)) (\<lambda>resolved_name.
              Inr (set_attr resolved_name (''ref_value_for_'' @ resolved_name) xml_element, w))
          | None \<Rightarrow> Inr (xml_element, print (AttributeWithoutNameOrRef (tag xsd_definition)) w)))"

definition attribute_group :: "xsd \<Rightarrow> xml \<times> world \<Rightarrow> error + xml \<times> world" where
  "attribute_group attr_group_ref = (\<lambda>(xml_element, w).
     case nonempty (get attr_group_ref ''ref'') of
       Some ref_name \<Rightarrow> Inr (xml_element, print (AttributeGroupSkipped ref_name) w)
     | None \<Rightarrow> Inr (xml_element, w))"

definition process_attributes :: "xsd \<Rightarrow> xml \<times> world \<Rightarrow> error + xml \<times> world" where
  "process_attributes xsd_definition s =
     and_then (for_each (process_attribute xsd_definition) (findall xsd_definition ''attribute'') s)
       (for_each attribute_group (findall xsd_definition ''attributeGroup''))"

section \<open>The content model walker and the element generator\<close>

text \<open>
  \<^verbatim>\<open>_generate_xml_element\<close> and \<^verbatim>\<open>_process_content_model\<close> call each other, and a schema
  whose types refer to themselves makes them recurse until Python's call stack is full and
  \<^verbatim>\<open>RecursionError\<close> is raised. A \<open>call\<close> names one of the two with its schema node and path;
  \<open>run depth\<close> executes a call with \<open>depth\<close> frames left. Both take the element under
  construction and the world and return them updated.
\<close>

datatype call =
    Generate_xml_element xsd string
  | Process_content_model "xsd option" string

type_synonym step = "xml \<times> world \<Rightarrow> error + xml \<times> world"

text \<open>
  The search for the content model of a type definition, lines 382 to 386 and 420 to 424, and
  the shorter one for the base type of an extension, lines 231 to 234. The operands of
  \<^verbatim>\<open>or\<close> are lxml elements.
\<close>

definition content_model :: "xsd \<Rightarrow> xsd option" where
  "content_model type_def =
     py_or (find_xsd type_def ''sequence'')
       (py_or (find_xsd type_def ''all'')
          (py_or (find_xsd type_def ''choice'')
             (py_or (find_xsd type_def ''complexContent'')
                (find_xsd type_def ''simpleContent''))))"

definition base_content_model :: "xsd \<Rightarrow> xsd option" where
  "base_content_model base_type_def =
     py_or (find_xsd base_type_def ''sequence'')
       (py_or (find_xsd base_type_def ''all'')
          (py_or (find_xsd base_type_def ''choice'')
             (find_xsd base_type_def ''complexContent'')))"

text \<open>The values of the \<^verbatim>\<open>enumeration\<close> facets of a restriction.\<close>

definition enum_values :: "xsd \<Rightarrow> string option list" where
  "enum_values restriction = map (\<lambda>e. get e ''value'') (findall restriction ''enumeration'')"

text \<open>\<^verbatim>\<open>generate_sample_value(name.split(":")[i])\<close>.\<close>

definition sample_of_part :: "string \<Rightarrow> int \<Rightarrow> world \<Rightarrow> error + string option \<times> world" where
  "sample_of_part name i w =
     and_then (item (split CHR '':'' name) i) (\<lambda>t.
     and_then (generate_sample_value (Some t) w) (\<lambda>(v, w'). Inr (Some v, w')))"

text \<open>The \<^verbatim>\<open>simpleContent\<close> branch of \<^verbatim>\<open>_process_content_model\<close>, lines 260 to 299.\<close>

definition simple_content_text :: "xsd \<Rightarrow> world \<Rightarrow> error + string option \<times> world" where
  "simple_content_text restriction w =
     (case nonempty (get restriction ''base'') of
        Some base_type_name \<Rightarrow>
          if startswith base_type_name ''xs:'' then sample_of_part base_type_name 1 w
          else if enum_values restriction \<noteq> [] then choice (enum_values restriction) w
          else sample_of_part base_type_name (- 1) w
      | None \<Rightarrow>
          if enum_values restriction \<noteq> [] then choice (enum_values restriction) w
          else and_then (generate_sample_value (Some ''string'') w) (\<lambda>(v, w'). Inr (Some v, w')))"

definition simple_content :: "xsd \<Rightarrow> string \<Rightarrow> step" where
  "simple_content content_model_element current_path = (\<lambda>(parent_xml_element, w).
     case find_xsd content_model_element ''extension'' of
       Some extension \<Rightarrow>
         and_then
           (case nonempty (get extension ''base'') of
              Some base_type_name \<Rightarrow>
                if startswith base_type_name ''xs:'' then sample_of_part base_type_name 1 w
                else sample_of_part base_type_name (- 1) w
            | None \<Rightarrow>
                and_then (generate_sample_value (Some ''string'') w) (\<lambda>(v, w'). Inr (Some v, w')))
           (\<lambda>(t, w'). process_attributes extension (set_text t parent_xml_element, w'))
     | None \<Rightarrow>
         (case find_xsd content_model_element ''restriction'' of
            Some restriction \<Rightarrow>
              and_then (simple_content_text restriction w)
                (\<lambda>(t, w'). process_attributes restriction (set_text t parent_xml_element, w'))
          | None \<Rightarrow> Inr (parent_xml_element, print (SimpleContentEmpty current_path) w)))"

text \<open>
  The \<^verbatim>\<open>complexContent\<close> branch, lines 220 to 257. The base type is looked up under the
  name as written, prefix included, and \<^verbatim>\<open>if base_type_def:\<close> asks for the truth value of
  an lxml element. Of the extension's own content only a \<^verbatim>\<open>sequence\<close> is walked.
\<close>

definition complex_content :: "generator \<Rightarrow> (call \<Rightarrow> step) \<Rightarrow> xsd \<Rightarrow> string \<Rightarrow> step" where
  "complex_content g rec content_model_element current_path = (\<lambda>s.
     case find_xsd content_model_element ''extension'' of
       Some extension \<Rightarrow>
         and_then
           (case if_true (get_type_definition g (get extension ''base'')) of
              Some base_type_def \<Rightarrow>
                and_then (process_attributes base_type_def s) (\<lambda>s'.
                  case base_content_model base_type_def of
                    Some m \<Rightarrow> rec (Process_content_model (Some m) current_path) s'
                  | None \<Rightarrow> Inr s')
            | None \<Rightarrow> Inr s)
           (\<lambda>s'. and_then (process_attributes extension s') (\<lambda>s''.
              case find_xsd extension ''sequence'' of
                Some sequence \<Rightarrow> rec (Process_content_model (Some sequence) current_path) s''
              | None \<Rightarrow> Inr s''))
     | None \<Rightarrow>
         (case find_xsd content_model_element ''restriction'' of
            Some restriction \<Rightarrow>
              and_then
                (process_attributes restriction
                   (fst s, print (ComplexContentRestriction current_path) (snd s)))
                (\<lambda>s'. case find_xsd restriction ''sequence'' of
                         Some sequence \<Rightarrow> rec (Process_content_model (Some sequence) current_path) s'
                       | None \<Rightarrow> Inr s')
          | None \<Rightarrow> Inr (fst s, print (ComplexContentEmpty current_path) (snd s))))"

text \<open>\<^verbatim>\<open>_process_content_model\<close>, lines 190 to 302.\<close>

definition group_skipped :: "string \<Rightarrow> xsd \<Rightarrow> step" where
  "group_skipped current_path group_ref = (\<lambda>(parent_xml_element, w).
     Inr (parent_xml_element, print (GroupSkipped (get group_ref ''ref'') current_path) w))"

definition process_content_model_body ::
  "generator \<Rightarrow> (call \<Rightarrow> step) \<Rightarrow> xsd option \<Rightarrow> string \<Rightarrow> step" where
  "process_content_model_body g rec content_model_element current_path = (\<lambda>s.
     case content_model_element of
       None \<Rightarrow> Inr s
     | Some m \<Rightarrow>
         if tag m = XSD_NAMESPACE @ ''sequence'' \<or> tag m = XSD_NAMESPACE @ ''all'' then
           and_then
             (for_each (\<lambda>child_xsd_element. rec (Generate_xml_element child_xsd_element current_path))
                (findall m ''element'') s)
             (for_each (group_skipped current_path) (findall m ''group''))
         else if tag m = XSD_NAMESPACE @ ''choice'' then
           (case find_xsd m ''element'' of
              Some first_choice \<Rightarrow> rec (Generate_xml_element first_choice current_path) s
            | None \<Rightarrow> Inr (fst s, print (ChoiceEmpty current_path) (snd s)))
         else if tag m = XSD_NAMESPACE @ ''complexContent'' then
           complex_content g rec m current_path s
         else if tag m = XSD_NAMESPACE @ ''simpleContent'' then
           simple_content m current_path s
         else Inr (fst s, print (UnhandledContentModel (tag m) current_path) (snd s)))"

text \<open>
  The text of an element of a simple type, lines 392 to 406 and 434 to 447; the two places
  differ in the placeholder texts only.
\<close>

definition simple_type_text ::
  "xsd \<Rightarrow> string \<Rightarrow> string \<Rightarrow> world \<Rightarrow> error + string option \<times> world" where
  "simple_type_text simple_type no_base_or_enum no_restriction w =
     (case find_xsd simple_type ''restriction'' of
        Some restriction \<Rightarrow>
          (case get restriction ''base'' of
             Some base_type \<Rightarrow>
               if base_type \<noteq> [] \<and> startswith base_type ''xs:'' then sample_of_part base_type 1 w
               else if enum_values restriction \<noteq> [] then choice (enum_values restriction) w
               else Inr (Some no_base_or_enum, w)
           | None \<Rightarrow>
               if enum_values restriction \<noteq> [] then choice (enum_values restriction) w
               else Inr (Some no_base_or_enum, w))
      | None \<Rightarrow> Inr (Some no_restriction, w))"

text \<open>
  One round of the loop of \<^verbatim>\<open>_generate_xml_element\<close>, lines 370 to 450, after the new
  element is made: \<open>populate\<close> fills it.
\<close>

definition populate ::
  "generator \<Rightarrow> (call \<Rightarrow> step) \<Rightarrow> xsd \<Rightarrow> string option \<Rightarrow> string \<Rightarrow> step" where
  "populate g rec xsd_element_def xsd_type_name current_path = (\<lambda>s.
     case get_type_definition g xsd_type_name of
       Some xsd_type_def \<Rightarrow>
         and_then (process_attributes xsd_type_def s) (\<lambda>(xml_element, w).
           case content_model xsd_type_def of
             Some complex_type_content \<Rightarrow>
               rec (Process_content_model (Some complex_type_content) current_path) (xml_element, w)
           | None \<Rightarrow>
               if tag xsd_type_def = XSD_NAMESPACE @ ''simpleType'' then
                 and_then
                   (simple_type_text xsd_type_def
                      (''SIMPLE_TYPE_NO_BASE_OR_ENUM_'' @ (case xsd_type_name of Some t \<Rightarrow> t | None \<Rightarrow> ''None''))
                      (''SIMPLE_TYPE_NO_RESTRICTION_'' @ (case xsd_type_name of Some t \<Rightarrow> t | None \<Rightarrow> ''None''))
                      w)
                   (\<lambda>(t, w'). Inr (set_text t xml_element, w'))
               else Inr (xml_element, w))
     | None \<Rightarrow>
         and_then (process_attributes xsd_element_def s) (\<lambda>(xml_element, w).
           case find_xsd xsd_element_def ''complexType'' of
             Some inline_complex_type \<Rightarrow>
               (case content_model inline_complex_type of
                  Some m \<Rightarrow> rec (Process_content_model (Some m) current_path) (xml_element, w)
                | None \<Rightarrow> Inr (xml_element, w))
           | None \<Rightarrow>
               (case find_xsd xsd_element_def ''simpleType'' of
                  Some inline_simple_type \<Rightarrow>
                    and_then
                      (simple_type_text inline_simple_type ''INLINE_SIMPLE_TYPE_NO_BASE_OR_ENUM''
                         ''INLINE_SIMPLE_TYPE_NO_RESTRICTION'' w)
                      (\<lambda>(t, w'). Inr (set_text t xml_element, w'))
                | None \<Rightarrow>
                    and_then (generate_sample_value xsd_type_name w)
                      (\<lambda>(v, w'). Inr (set_text (Some v) xml_element, w')))))"

definition one_instance :: "generator \<Rightarrow> (call \<Rightarrow> step) \<Rightarrow> xsd \<Rightarrow> string \<Rightarrow> string \<Rightarrow> step" where
  "one_instance g rec xsd_element_def element_name current_path = (\<lambda>(parent_xml_node, w).
     and_then (get_xsd_type_name xsd_element_def) (\<lambda>xsd_type_name.
     and_then (populate g rec xsd_element_def xsd_type_name current_path
                 (Elem element_name [] None [], w))
       (\<lambda>(xml_element, w'). Inr (add_child parent_xml_node xml_element, w'))))"

text \<open>\<^verbatim>\<open>_generate_xml_element\<close>, lines 335 to 450.\<close>

definition generate_xml_element_body ::
  "generator \<Rightarrow> (call \<Rightarrow> step) \<Rightarrow> xsd \<Rightarrow> string \<Rightarrow> step" where
  "generate_xml_element_body g rec xsd_element_def path = (\<lambda>(parent_xml_node, w).
     case nonempty (get xsd_element_def ''name'') of
       None \<Rightarrow> Inr (parent_xml_node, print (UnnamedElementSkipped path) w)
     | Some element_name \<Rightarrow>
         and_then (get_occurrence xsd_element_def) (\<lambda>(min_occurs, max_occurs).
           if min_occurs = 0 \<and> max_occurs = Bounded 0 then Inr (parent_xml_node, w)
           else
             and_then (num_occurrences min_occurs max_occurs w) (\<lambda>(n, w').
               if n = 0 then Inr (parent_xml_node, w')
               else
                 for_each
                   (\<lambda>_. one_instance g rec xsd_element_def element_name (path @ ''/'' @ element_name))
                   (replicate (nat n) ()) (parent_xml_node, w'))))"

primrec run :: "nat \<Rightarrow> generator \<Rightarrow> call \<Rightarrow> step" where
  "run 0 g c = (\<lambda>s. Inl RecursionError)"
| "run (Suc depth) g c =
     (case c of
        Generate_xml_element xsd_element_def current_path \<Rightarrow>
          generate_xml_element_body g (run depth g) xsd_element_def current_path
      | Process_content_model content_model_element path \<Rightarrow>
          process_content_model_body g (run depth g) content_model_element path)"

definition generate_xml_element :: "nat \<Rightarrow> generator \<Rightarrow> xsd \<Rightarrow> string \<Rightarrow> step" where
  "generate_xml_element depth g xsd_element_def current_path =
     run depth g (Generate_xml_element xsd_element_def current_path)"

definition process_content_model :: "nat \<Rightarrow> generator \<Rightarrow> xsd option \<Rightarrow> string \<Rightarrow> step" where
  "process_content_model depth g content_model_element path =
     run depth g (Process_content_model content_model_element path)"

section \<open>The document assembler: \<^verbatim>\<open>generate_xml\<close>\<close>

text \<open>
  \<^verbatim>\<open>root.find("{...}element[@name='N']")\<close>: the first element child of the schema root whose
  \<^verbatim>\<open>name\<close> attribute is \<open>N\<close>. The name is pasted between apostrophes into the path
  expression; what lxml's path parser makes of a name that holds an apostrophe itself is not
  modelled, and the run stops there with \<open>PathSyntaxError\<close>.
\<close>

definition find_element_named :: "xsd \<Rightarrow> string \<Rightarrow> error + xsd option" where
  "find_element_named root name =
     (if CHR 0x27 \<in> set name then Inl (PathSyntaxError name)
      else Inr (List.find (\<lambda>c. tag c = XSD_NAMESPACE @ ''element'' \<and> get c ''name'' = Some name)
                  (children root)))"

text \<open>
  \<^verbatim>\<open>generate_xml\<close>, lines 452 to 487, up to the serialization: the result is the root element.
  \<^verbatim>\<open>etree.Element(None)\<close> raises \<^verbatim>\<open>TypeError\<close>.
\<close>

definition select_root :: "generator \<Rightarrow> string option \<Rightarrow> world \<Rightarrow> error + xsd \<times> world" where
  "select_root g root_element_name w =
     (case nonempty root_element_name of
        Some name \<Rightarrow>
          and_then (find_element_named (schema_doc g) name) (\<lambda>found.
            case found of
              None \<Rightarrow> Inl (ValueError (''Root element '' @ [CHR 0x27] @ name @ [CHR 0x27] @ '' not found in XSD.''))
            | Some selected_root_xsd_element \<Rightarrow> Inr (selected_root_xsd_element, w))
      | None \<Rightarrow>
          (case find_xsd (schema_doc g) ''element'' of
             None \<Rightarrow>
               Inl (ValueError ''No global element definition found in the XSD to start XML generation.'')
           | Some selected_root_xsd_element \<Rightarrow>
               Inr (selected_root_xsd_element,
                    print (UsingFirstGlobalElement (get selected_root_xsd_element ''name'')) w)))"

definition generate_xml :: "nat \<Rightarrow> generator \<Rightarrow> string option \<Rightarrow> world \<Rightarrow> error + xml \<times> world" where
  "generate_xml depth g root_element_name w =
     and_then (select_root g root_element_name w) (\<lambda>(selected_root_xsd_element, w').
       case get selected_root_xsd_element ''name'' of
         None \<Rightarrow> Inl (TypeError ''Argument must be bytes or unicode, got NoneType'')
       | Some root_name \<Rightarrow>
           generate_xml_element depth g selected_root_xsd_element []
             (Elem root_name [] None [], w'))"

section \<open>What the specification asks for\<close>

text \<open>
  The search for a content model as the specification words it: sequence, then all, then
  choice, then complexContent, then simpleContent, the first that is present winning, whether
  it has children or not.
\<close>

definition first_present :: "xsd \<Rightarrow> xsd option" where
  "first_present type_def =
     (case find_xsd type_def ''sequence'' of
        Some n \<Rightarrow> Some n
      | None \<Rightarrow>
     (case find_xsd type_def ''all'' of
        Some n \<Rightarrow> Some n
      | None \<Rightarrow>
     (case find_xsd type_def ''choice'' of
        Some n \<Rightarrow> Some n
      | None \<Rightarrow>
     (case find_xsd type_def ''complexContent'' of
        Some n \<Rightarrow> Some n
      | None \<Rightarrow> find_xsd type_def ''simpleContent''))))"

text \<open>
  The extension of a complexContent as the specification words it: the base type's attributes
  and content model first, when the base is in the registry, then the attributes and the
  content model declared in the extension itself.
\<close>

definition extension_as_specified :: "nat \<Rightarrow> generator \<Rightarrow> xsd \<Rightarrow> string \<Rightarrow> step" where
  "extension_as_specified depth g extension path = (\<lambda>s.
     and_then
       (case get_type_definition g (get extension ''base'') of
          Some base \<Rightarrow>
            and_then (process_attributes base s)
              (process_content_model depth g (first_present base) path)
        | None \<Rightarrow> Inr s)
       (\<lambda>s'. and_then (process_attributes extension s')
                (process_content_model depth g (first_present extension) path)))"

text \<open>
  The tag structure and the attribute names of a document: what is left of it when the
  attribute values and the texts are erased.
\<close>

datatype skeleton = Skeleton string "string list" "skeleton list"

fun shape :: "xml \<Rightarrow> skeleton" where
  "shape (Elem t a x cs) = Skeleton t (map fst a) (map shape cs)"

definition shape_of :: "error + xml \<times> world \<Rightarrow> error + skeleton" where
  "shape_of r = map_sum id (\<lambda>s. shape (fst s)) r"

text \<open>The document a run returns, and the warnings it has printed.\<close>

definition document :: "error + xml \<times> world \<Rightarrow> error + xml" where
  "document r = map_sum id fst r"

definition messages :: "error + xml \<times> world \<Rightarrow> error + message list" where
  "messages r = map_sum id (\<lambda>s. log (snd s)) r"

text \<open>Two worlds make the same occurrence draws when their \<open>occ\<close> oracles agree.\<close>

definition same_draws :: "world \<Rightarrow> world \<Rightarrow> bool" where
  "same_draws w v \<longleftrightarrow> occ w = occ v \<and> occ_pos w = occ_pos v"

definition alike :: "xml \<times> world \<Rightarrow> xml \<times> world \<Rightarrow> bool" where
  "alike s t \<longleftrightarrow> shape (fst s) = shape (fst t) \<and> same_draws (snd s) (snd t)"

text \<open>
  A step is \<open>uniform\<close> when, from alike states, it fails twice with the same error or returns
  alike states; a computation of a value is \<open>blind\<close> when it does so on the worlds alone.
\<close>

definition uniform :: "step \<Rightarrow> bool" where
  "uniform f = (\<forall>s t. alike s t \<longrightarrow> rel_sum (=) alike (f s) (f t))"

definition blind :: "(world \<Rightarrow> error + 'a \<times> world) \<Rightarrow> bool" where
  "blind f =
     (\<forall>w v. same_draws w v \<longrightarrow> rel_sum (=) (\<lambda>a b. same_draws (snd a) (snd b)) (f w) (f v))"

text \<open>
  \<open>extends p p'\<close>: \<open>p'\<close> is \<open>p\<close> with attributes and text possibly changed and children
  possibly appended. A step is \<open>growing\<close> when that is all it does to the element.
\<close>

definition extends :: "xml \<Rightarrow> xml \<Rightarrow> bool" where
  "extends p p' \<longleftrightarrow> xtag p' = xtag p \<and> prefix (xchildren p) (xchildren p')"

definition growing :: "step \<Rightarrow> bool" where
  "growing f = (\<forall>p w p' w'. f (p, w) = Inr (p', w') \<longrightarrow> extends p p')"

section \<open>Schemas and worlds to run the generator on\<close>

text \<open>An element of the schema namespace, as \<^verbatim>\<open><xs:name attrs>kids</xs:name>\<close> is parsed.\<close>

definition xs_node :: "string \<Rightarrow> (string \<times> string) list \<Rightarrow> xsd list \<Rightarrow> xsd" where
  "xs_node name attrs kids = Node (XSD_NAMESPACE @ name) attrs kids"

text \<open>Two worlds: every draw is 0 in the first and 1 in the second.\<close>

definition quiet :: world where
  "quiet =
     \<lparr>occ = (\<lambda>_. 0), occ_pos = 0, val = (\<lambda>_. 0), val_pos = 0,
      clock = (\<lambda>_. \<lparr>year = 2024, month = 2, day = 9, hour = 7, minute = 5, second = 0\<rparr>),
      clock_pos = 0, log = []\<rparr>"

definition busy :: world where
  "busy = quiet\<lparr>occ := (\<lambda>_. 1), val := (\<lambda>_. 1)\<rparr>"

text \<open>
  \<^verbatim>\<open><xs:element name="Ntry" minOccurs="3" maxOccurs="unbounded"/>\<close>
\<close>

definition three_or_more :: xsd where
  "three_or_more =
     xs_node ''element'' [(''name'', ''Ntry''), (''minOccurs'', ''3''), (''maxOccurs'', ''unbounded'')] []"

text \<open>
  An attribute whose inline simple type is an enumeration, and a complex type that declares it;
  then the same enumeration over a base that is no built-in type:
  \<^verbatim>\<open><xs:attribute name="CdtDbtInd"><xs:simpleType><xs:restriction base="xs:string">
  <xs:enumeration value="CRDT"/><xs:enumeration value="DBIT"/>
  </xs:restriction></xs:simpleType></xs:attribute>\<close>
\<close>

definition indicator_restriction :: xsd where
  "indicator_restriction =
     xs_node ''restriction'' [(''base'', ''xs:string'')]
       [xs_node ''enumeration'' [(''value'', ''CRDT'')] [],
        xs_node ''enumeration'' [(''value'', ''DBIT'')] []]"

definition indicator_attribute :: xsd where
  "indicator_attribute =
     xs_node ''attribute'' [(''name'', ''CdtDbtInd'')]
       [xs_node ''simpleType'' [] [indicator_restriction]]"

definition code_type :: xsd where
  "code_type =
     xs_node ''simpleType'' []
       [xs_node ''restriction'' [(''base'', ''Code'')]
          [xs_node ''enumeration'' [(''value'', ''CRDT'')] [],
           xs_node ''enumeration'' [(''value'', ''DBIT'')] []]]"

definition code_attribute :: xsd where
  "code_attribute = xs_node ''attribute'' [(''name'', ''CdtDbtInd'')] [code_type]"

definition amount_type :: xsd where
  "amount_type = xs_node ''complexType'' [(''name'', ''Amt'')] [indicator_attribute]"

text \<open>
  An element whose inline simple type restricts an anonymous simple type, so that the
  restriction has no \<^verbatim>\<open>base\<close> attribute (a valid schema), and an element whose simpleContent
  extension has none.
\<close>

definition restriction_without_base :: xsd where
  "restriction_without_base =
     xs_node ''element'' [(''name'', ''Cd'')]
       [xs_node ''simpleType'' []
          [xs_node ''restriction'' []
             [xs_node ''simpleType'' [] [xs_node ''restriction'' [(''base'', ''xs:string'')] []],
              xs_node ''enumeration'' [(''value'', ''A'')] []]]]"

definition extension_without_base :: xsd where
  "extension_without_base =
     xs_node ''element'' [(''name'', ''Amt'')]
       [xs_node ''complexType'' []
          [xs_node ''simpleContent'' [] [xs_node ''extension'' [] []]]]"

text \<open>
  A schema whose root element repeats a child without bound and has no optional element:
  \<^verbatim>\<open><xs:element name="Doc"><xs:complexType><xs:sequence>
  <xs:element name="Ntry" type="xs:boolean" maxOccurs="unbounded"/>
  </xs:sequence></xs:complexType></xs:element>\<close>
\<close>

definition entry_element :: xsd where
  "entry_element =
     xs_node ''element''
       [(''name'', ''Ntry''), (''type'', ''xs:boolean''), (''maxOccurs'', ''unbounded'')] []"

definition entries_schema :: xsd where
  "entries_schema =
     xs_node ''schema'' []
       [xs_node ''element'' [(''name'', ''Doc'')]
          [xs_node ''complexType'' [] [xs_node ''sequence'' [] [entry_element]]]]"

text \<open>A world that draws the occurrences as \<open>quiet\<close> does and the values otherwise.\<close>

definition other_values :: world where
  "other_values = quiet\<lparr>val := (\<lambda>_. 1)\<rparr>"

text \<open>
  A complex type whose content model is a choice with no child, \<^verbatim>\<open><xs:choice/>\<close>, and a
  schema with an element of that type.
\<close>

definition empty_choice :: xsd where
  "empty_choice = xs_node ''choice'' [] []"

definition empty_choice_type :: xsd where
  "empty_choice_type = xs_node ''complexType'' [(''name'', ''T'')] [empty_choice]"

definition empty_choice_element :: xsd where
  "empty_choice_element = xs_node ''element'' [(''name'', ''R''), (''type'', ''T'')] []"

definition empty_choice_schema :: xsd where
  "empty_choice_schema = xs_node ''schema'' [] [empty_choice_element, empty_choice_type]"

text \<open>
  A base type with a sequence, and two complexContent nodes that extend it: one by a choice,
  one by a sequence.
\<close>

definition base_type :: xsd where
  "base_type =
     xs_node ''complexType'' [(''name'', ''Base'')]
       [xs_node ''sequence'' [] [xs_node ''element'' [(''name'', ''A''), (''type'', ''xs:string'')] []]]"

definition choice_extension :: xsd where
  "choice_extension =
     xs_node ''extension'' [(''base'', ''Base'')]
       [xs_node ''choice'' [] [xs_node ''element'' [(''name'', ''B''), (''type'', ''xs:string'')] []]]"

definition sequence_extension :: xsd where
  "sequence_extension =
     xs_node ''extension'' [(''base'', ''Base'')]
       [xs_node ''sequence'' [] [xs_node ''element'' [(''name'', ''B''), (''type'', ''xs:string'')] []]]"

definition by_choice :: xsd where
  "by_choice = xs_node ''complexContent'' [] [choice_extension]"

definition by_sequence :: xsd where
  "by_sequence = xs_node ''complexContent'' [] [sequence_extension]"

definition derived_schema :: xsd where
  "derived_schema =
     xs_node ''schema'' []
       [base_type,
        xs_node ''complexType'' [(''name'', ''ByChoice'')] [by_choice],
        xs_node ''complexType'' [(''name'', ''BySequence'')] [by_sequence]]"

text \<open>A choice between two elements, and an element declared by reference only.\<close>

definition a_or_b :: xsd where
  "a_or_b =
     xs_node ''choice'' []
       [xs_node ''element'' [(''name'', ''A'')] [], xs_node ''element'' [(''name'', ''B'')] []]"

definition reference_element :: xsd where
  "reference_element = xs_node ''element'' [(''ref'', ''Foo'')] []"

definition plain_element :: xsd where
  "plain_element = xs_node ''element'' [(''name'', ''Amount''), (''type'', ''xs:decimal'')] []"

section \<open>Facts about the value synthesizer\<close>

lemma and_then_simps [simp]:
  "and_then (Inl e) f = Inl e"
  "and_then (Inr x) f = f x"
  by (simp_all add: and_then_def)

lemma str_nat_not_empty: "str_nat n \<noteq> []"
  by (subst str_nat.simps) simp

lemma str_int_not_empty: "str_int i \<noteq> []"
  by (simp add: str_int_def str_nat_not_empty)

lemma zpad_not_empty: "zpad k n \<noteq> []"
  by (simp add: zpad_def str_nat_not_empty)

lemma uniform_fixed_not_empty: "uniform_fixed k r \<noteq> []"
  by (simp add: uniform_fixed_def Let_def str_nat_not_empty)

lemma type_map_keys: "map fst (type_map w) = builtin_type_names"
  by (simp add: type_map_def builtin_type_names_def)

lemma boolean_not_empty: "[''true'', ''false''] ! (r mod 2) \<noteq> []"
proof (cases "r mod 2 = 0")
  case True
  then show ?thesis by simp
next
  case False
  then have "r mod 2 = 1" by presburger
  then show ?thesis by simp
qed

lemma type_map_values_not_empty: "\<forall>(k, v) \<in> set (type_map w). v \<noteq> []"
  unfolding type_map_def
  by (simp add: str_int_not_empty zpad_not_empty uniform_fixed_not_empty fmt_date_def
      fmt_time_def boolean_not_empty)

lemma type_map_lookup_not_empty: "map_of (type_map w) k = Some v \<Longrightarrow> v \<noteq> []"
  using type_map_values_not_empty [of w] by (force dest: map_of_SomeD)

lemma type_map_lookup_None: "map_of (type_map w) k = None \<longleftrightarrow> k \<notin> set builtin_type_names"
proof -
  have "set builtin_type_names = fst ` set (type_map w)"
    using type_map_keys [of w] by (metis set_map)
  then show ?thesis
    by (simp add: map_of_eq_None_iff)
qed

text \<open>
  C10. The value synthesizer returns on every string, and what it returns is not empty.
  The lookup goes through the lowercased name, so two names that differ in case only get the
  same entry; a name whose lowercased form is no key gets \<^verbatim>\<open>UNKNOWN_TYPE_\<close> followed by the
  name as it was given.
\<close>

theorem generate_sample_value_total:
  "\<exists>v. generate_sample_value (Some name) w = Inr (v, after_type_map w) \<and> v \<noteq> [] \<and>
       (lower name \<notin> set builtin_type_names \<longrightarrow> v = ''UNKNOWN_TYPE_'' @ name) \<and>
       (lower name \<in> set builtin_type_names \<longrightarrow>
          map_of (type_map w) (lower name) = Some v \<and>
          (\<forall>other. lower other = lower name \<longrightarrow>
             generate_sample_value (Some other) w = Inr (v, after_type_map w)))"
proof (cases "map_of (type_map w) (lower name)")
  case None
  then have "lower name \<notin> set builtin_type_names"
    by (simp add: type_map_lookup_None)
  with None show ?thesis
    by (simp add: generate_sample_value_def)
next
  case (Some v)
  then have "lower name \<in> set builtin_type_names"
    using type_map_lookup_None [of w "lower name"] by auto
  moreover have "v \<noteq> []"
    using Some by (rule type_map_lookup_not_empty)
  ultimately show ?thesis
    using Some by (simp add: generate_sample_value_def)
qed

theorem generate_sample_value_total_witness:
  "lower ''Foo'' \<notin> set builtin_type_names \<and>
   generate_sample_value (Some ''Foo'') quiet = Inr (''UNKNOWN_TYPE_Foo'', after_type_map quiet) \<and>
   lower ''sTrInG'' \<in> set builtin_type_names \<and>
   generate_sample_value (Some ''sTrInG'') quiet = Inr (''sample_string'', after_type_map quiet) \<and>
   generate_sample_value (Some ''STRING'') quiet = Inr (''sample_string'', after_type_map quiet)"
proof -
  have a: "lower ''Foo'' \<notin> set builtin_type_names"
    by (simp add: lower_def lower_char_def builtin_type_names_def)
  have b: "lower ''sTrInG'' \<in> set builtin_type_names"
    by (simp add: lower_def lower_char_def builtin_type_names_def)
  have c: "lower ''STRING'' = lower ''sTrInG''"
    by (simp add: lower_def lower_char_def)
  have d: "map_of (type_map quiet) (lower ''sTrInG'') = Some ''sample_string''"
    by (simp add: lower_def lower_char_def type_map_def)
  from generate_sample_value_total [of "''Foo''" quiet] a
  have 1: "generate_sample_value (Some ''Foo'') quiet =
             Inr (''UNKNOWN_TYPE_Foo'', after_type_map quiet)"
    by auto
  from generate_sample_value_total [of "''sTrInG''" quiet] b c d
  have 2: "generate_sample_value (Some ''sTrInG'') quiet =
             Inr (''sample_string'', after_type_map quiet) \<and>
           generate_sample_value (Some ''STRING'') quiet =
             Inr (''sample_string'', after_type_map quiet)"
    by auto
  from a b 1 2 show ?thesis by blast
qed

section \<open>The occurrence sampler on an unbounded element\<close>

lemma py_int_3: "py_int ''3'' = Inr 3"
  by (simp add: py_int_def strip_def is_space_def digit_value_def)

lemma get_occurrence_three_or_more: "get_occurrence three_or_more = Inr (3, Unbounded)"
  by (simp add: get_occurrence_def three_or_more_def xs_node_def get_def py_int_3)

lemma num_occurrences_three:
  "num_occurrences 3 Unbounded w = Inl (ValueError ''empty range for randrange()'')"
  by (simp add: num_occurrences_def randint_def)

lemma num_occurrences_unbounded:
  "num_occurrences mn Unbounded w =
     (if 3 \<le> mn then Inl (ValueError ''empty range for randrange()'')
      else Inr (let n = pick_int mn (min (mn + 1) 2) (occ w (occ_pos w))
                in if n = 0 \<and> mn = 0 then 1 else n,
                w\<lparr>occ_pos := occ_pos w + 1\<rparr>))"
proof -
  have "min (mn + 1) 2 < mn \<longleftrightarrow> 3 \<le> mn"
    by (auto simp add: min_def)
  then show ?thesis
    by (simp add: num_occurrences_def randint_def Let_def)
qed

text \<open>
  C1. The sampler draws from \<^verbatim>\<open>random.randint(min_occurs, min(min_occurs + 1, 2))\<close>, not
  from a range that ends at \<open>max(minimum, minimum + 1, 2)\<close>. With \<^verbatim>\<open>minOccurs="3"\<close> and
  \<^verbatim>\<open>maxOccurs="unbounded"\<close> the range is 3 to 2, \<^verbatim>\<open>randint\<close> raises \<^verbatim>\<open>ValueError\<close>, and the
  generation of the element ends with that error in every world and at every depth.
\<close>

theorem unbounded_min_three_raises:
  "generate_xml_element (Suc depth) g three_or_more path (parent, w) =
     Inl (ValueError ''empty range for randrange()'')"
proof -
  have "nonempty (get three_or_more ''name'') = Some ''Ntry''"
    by (simp add: nonempty_def get_def three_or_more_def xs_node_def)
  then show ?thesis
    by (simp add: generate_xml_element_def generate_xml_element_body_def
        get_occurrence_three_or_more num_occurrences_three)
qed

section \<open>Steps only append children\<close>

lemma and_then_Inr: "and_then r f = Inr y \<longleftrightarrow> (\<exists>x. r = Inr x \<and> f x = Inr y)"
  by (cases r) simp_all

lemma extends_refl [simp]: "extends p p"
  by (simp add: extends_def)

lemma extends_trans: "extends p q \<Longrightarrow> extends q r \<Longrightarrow> extends p r"
  by (auto simp: extends_def)

lemma extends_set_attr [simp]: "extends (set_attr k v p) q = extends p q"
  and extends_set_text [simp]: "extends (set_text t p) q = extends p q"
  and extends_set_attr2 [simp]: "extends p (set_attr k v q) = extends p q"
  and extends_set_text2 [simp]: "extends p (set_text t q) = extends p q"
  by (simp_all add: extends_def set_attr_def set_text_def)

lemma extends_add_child: "extends p q \<Longrightarrow> extends p (add_child q c)"
  by (auto simp: extends_def add_child_def)

lemma growingI: "(\<And>p w p' w'. f (p, w) = Inr (p', w') \<Longrightarrow> extends p p') \<Longrightarrow> growing f"
  unfolding growing_def by blast

lemma growingE:
  "growing f \<Longrightarrow> f (p, w) = Inr (p', w') \<Longrightarrow> (extends p p' \<Longrightarrow> R) \<Longrightarrow> R"
  unfolding growing_def by blast

lemma growing_and_then:
  "growing f \<Longrightarrow> growing h \<Longrightarrow> growing (\<lambda>s. and_then (f s) h)"
  unfolding growing_def and_then_Inr by (metis extends_trans surj_pair)

lemma growing_for_each: "(\<And>x. growing (f x)) \<Longrightarrow> growing (for_each f xs)"
proof (induction xs)
  case Nil
  show ?case by (simp add: growing_def)
next
  case (Cons x xs)
  have "growing (\<lambda>s. and_then (f x s) (for_each f xs))"
    using Cons by (intro growing_and_then) auto
  then show ?case by (simp add: growing_def)
qed

lemma growing_process_attribute: "growing (process_attribute d a)"
  unfolding process_attribute_def
  by (rule growingI) (auto simp: and_then_Inr split: option.splits)

lemma growing_attribute_group: "growing (attribute_group a)"
  unfolding attribute_group_def
  by (rule growingI) (auto split: option.splits)

lemma growing_process_attributes: "growing (process_attributes d)"
  unfolding process_attributes_def
  by (intro growing_and_then growing_for_each growing_process_attribute
      growing_attribute_group)

lemma growing_group_skipped: "growing (group_skipped path r)"
  unfolding group_skipped_def by (rule growingI) auto

lemmas process_attributesE = growingE [OF growing_process_attributes]

lemma growing_simple_content: "growing (simple_content m path)"
  unfolding simple_content_def
  by (rule growingI)
     (auto simp: and_then_Inr split: option.splits elim!: process_attributesE)


lemma growing_complex_content:
  assumes "\<And>c. growing (rec c)"
  shows "growing (complex_content g rec m path)"
proof (rule growingI)
  fix p w p' w'
  assume r: "complex_content g rec m path (p, w) = Inr (p', w')"
  note recE = growingE [OF assms]
  show "extends p p'"
    using r unfolding complex_content_def
    by (auto simp: and_then_Inr split: option.splits elim!: process_attributesE recE
          intro: extends_trans)
qed


lemma growing_process_content_model_body:
  assumes "\<And>c. growing (rec c)"
  shows "growing (process_content_model_body g rec m path)"
proof (rule growingI)
  fix p w p' w'
  assume r: "process_content_model_body g rec m path (p, w) = Inr (p', w')"
  note recE = growingE [OF assms]
  note ccE = growingE [OF growing_complex_content [of rec, OF assms]]
  note scE = growingE [OF growing_simple_content]
  have "\<And>xs. growing (for_each (\<lambda>c. rec (Generate_xml_element c path)) xs)"
    by (rule growing_for_each) (rule assms)
  note eachE = growingE [OF this]
  have "\<And>xs. growing (for_each (group_skipped path) xs)"
    by (rule growing_for_each) (rule growing_group_skipped)
  note groupE = growingE [OF this]
  show "extends p p'"
    using r unfolding process_content_model_body_def
    by (auto simp: and_then_Inr split: option.splits if_splits
          elim!: recE ccE scE eachE groupE intro: extends_trans)
qed

lemma growing_populate:
  assumes "\<And>c. growing (rec c)"
  shows "growing (populate g rec d tn path)"
proof (rule growingI)
  fix p w p' w'
  assume r: "populate g rec d tn path (p, w) = Inr (p', w')"
  note recE = growingE [OF assms]
  show "extends p p'"
    using r unfolding populate_def
    by (auto simp: and_then_Inr split: option.splits if_splits
          elim!: recE process_attributesE intro: extends_trans)
qed

lemma growing_one_instance: "growing (one_instance g rec d n path)"
  unfolding one_instance_def
  by (rule growingI) (auto simp: and_then_Inr extends_add_child)

lemma growing_generate_xml_element_body: "growing (generate_xml_element_body g rec d path)"
proof (rule growingI)
  fix p w p' w'
  assume r: "generate_xml_element_body g rec d path (p, w) = Inr (p', w')"
  have "\<And>n cp xs. growing (for_each (\<lambda>_. one_instance g rec d n cp) xs)"
    by (rule growing_for_each) (rule growing_one_instance)
  note eachE = growingE [OF this]
  show "extends p p'"
    using r unfolding generate_xml_element_body_def
    by (auto simp: and_then_Inr split: option.splits if_splits elim!: eachE)
qed

lemma growing_run: "growing (run depth g c)"
proof (induction depth arbitrary: c)
  case 0
  show ?case by (simp add: growing_def)
next
  case (Suc depth)
  show ?case
    by (cases c)
       (simp_all add: growing_generate_xml_element_body growing_process_content_model_body Suc)
qed

section \<open>The structure follows the occurrence draws\<close>

lemma alike_pair [simp]: "alike (p, w) (q, v) \<longleftrightarrow> shape p = shape q \<and> same_draws w v"
  by (simp add: alike_def)

lemma same_draws_print [simp]:
  "same_draws (print m w) v = same_draws w v" "same_draws w (print m v) = same_draws w v"
  by (simp_all add: same_draws_def print_def)

lemma same_draws_after_type_map [simp]:
  "same_draws (after_type_map w) v = same_draws w v"
  "same_draws w (after_type_map v) = same_draws w v"
  by (simp_all add: same_draws_def after_type_map_def)

lemma keys_update: "map fst xs = map fst ys \<Longrightarrow> map fst (AList.update k v xs) = map fst (AList.update k v' ys)"
proof (induction xs arbitrary: ys)
  case Nil
  then show ?case by simp
next
  case (Cons x xs)
  then obtain y ys' where ys: "ys = y # ys'" by (cases ys) auto
  with Cons.prems have "fst x = fst y" "map fst xs = map fst ys'" by auto
  with Cons.IH [of ys'] ys show ?case by (cases x; cases y) auto
qed

lemma shape_sel: "shape p = Skeleton (xtag p) (map fst (xattrib p)) (map shape (xchildren p))"
  by (cases p) simp

lemma shape_set_attr:
  "shape p = shape q \<Longrightarrow> shape (set_attr k v p) = shape (set_attr k v' q)"
  by (cases p; cases q) (auto simp: set_attr_def intro: keys_update)

lemma shape_set_text [simp]: "shape (set_text t p) = shape p"
  by (cases p) (simp add: set_text_def)

lemma shape_add_child:
  "shape p = shape q \<Longrightarrow> shape c = shape d \<Longrightarrow>
   shape (add_child p c) = shape (add_child q d)"
  by (cases p; cases q) (auto simp: add_child_def)

lemma bind_step:
  "rel_sum (=) alike a b \<Longrightarrow> (\<And>x y. alike x y \<Longrightarrow> rel_sum (=) R (h x) (h' y)) \<Longrightarrow>
   rel_sum (=) R (and_then a h) (and_then b h')"
  by (cases a; cases b) auto

lemma bind_val:
  "rel_sum (=) (\<lambda>a b. same_draws (snd a) (snd b)) a b \<Longrightarrow>
   (\<And>x w y v. same_draws w v \<Longrightarrow> rel_sum (=) R (h (x, w)) (h' (y, v))) \<Longrightarrow>
   rel_sum (=) R (and_then a h) (and_then b h')"
  by (cases a; cases b) auto

lemma bind_pure:
  "(\<And>x. a = Inr x \<Longrightarrow> rel_sum (=) R (h x) (h' x)) \<Longrightarrow>
   rel_sum (=) R (and_then a h) (and_then a h')"
  by (cases a) auto

lemma uniformD: "uniform f \<Longrightarrow> alike s t \<Longrightarrow> rel_sum (=) alike (f s) (f t)"
  unfolding uniform_def by blast

lemma blindD:
  "blind f \<Longrightarrow> same_draws w v \<Longrightarrow> rel_sum (=) (\<lambda>a b. same_draws (snd a) (snd b)) (f w) (f v)"
  unfolding blind_def by blast

lemma uniform_for_each:
  assumes "\<And>x. uniform (f x)"
  shows "uniform (for_each f xs)"
proof (induction xs)
  case Nil
  show ?case by (simp add: uniform_def)
next
  case (Cons x xs)
  show ?case
    unfolding uniform_def
  proof (intro allI impI)
    fix s t assume "alike s t"
    then have "rel_sum (=) alike (f x s) (f x t)"
      by (rule uniformD [OF assms])
    then show "rel_sum (=) alike (for_each f (x # xs) s) (for_each f (x # xs) t)"
      by (simp, intro bind_step) (auto intro: uniformD [OF Cons])
  qed
qed

lemma blind_generate_sample_value: "blind (generate_sample_value tn)"
  by (auto simp: blind_def generate_sample_value_def split: option.splits)

lemma blind_choice: "blind (choice xs)"
  by (auto simp: blind_def choice_def same_draws_def)

lemma blind_sample_of_part: "blind (sample_of_part name i)"
  unfolding blind_def sample_of_part_def
  by (cases "item (split CHR '':'' name) i")
     (auto simp: generate_sample_value_def)

lemma blind_Inr: "blind (\<lambda>w. Inr (x, w))"
  by (simp add: blind_def)

lemma blind_simple_content_text: "blind (simple_content_text r)"
  unfolding simple_content_text_def blind_def
  by (auto simp: generate_sample_value_def split: option.splits
        intro: blindD [OF blind_sample_of_part] blindD [OF blind_choice])

lemma blind_simple_type_text: "blind (simple_type_text st a b)"
  unfolding simple_type_text_def blind_def
  by (auto split: option.splits
        intro: blindD [OF blind_sample_of_part] blindD [OF blind_choice])


lemma uniformI:
  "(\<And>p w q v. shape p = shape q \<Longrightarrow> same_draws w v \<Longrightarrow> rel_sum (=) alike (f (p, w)) (f (q, v)))
   \<Longrightarrow> uniform f"
  unfolding uniform_def by auto

lemma uniform_process_attribute: "uniform (process_attribute d a)"
proof (rule uniformI)
  fix p w q v
  assume s: "shape p = shape q" and d: "same_draws w v"
  show "rel_sum (=) alike (process_attribute d a (p, w)) (process_attribute d a (q, v))"
    unfolding process_attribute_def using s d
    by (auto simp: generate_sample_value_def split: option.splits
          intro!: bind_pure shape_set_attr)
qed

lemma uniform_attribute_group: "uniform (attribute_group a)"
  by (rule uniformI) (auto simp: attribute_group_def split: option.splits)

lemma uniform_and_then: "uniform f \<Longrightarrow> uniform h \<Longrightarrow> uniform (\<lambda>s. and_then (f s) h)"
  unfolding uniform_def by (blast intro: bind_step)

lemma uniform_process_attributes: "uniform (process_attributes d)"
  unfolding process_attributes_def
  by (intro uniform_and_then uniform_for_each uniform_process_attribute uniform_attribute_group)

lemma uniform_group_skipped: "uniform (group_skipped path r)"
  by (rule uniformI) (simp add: group_skipped_def)


lemma bind_blind:
  "blind f \<Longrightarrow> same_draws w v \<Longrightarrow>
   (\<And>x w y v. same_draws w v \<Longrightarrow> rel_sum (=) R (h (x, w)) (h' (y, v))) \<Longrightarrow>
   rel_sum (=) R (and_then (f w) h) (and_then (f v) h')"
  by (rule bind_val [OF blindD])

lemma blind_some_sample:
  "blind (\<lambda>w. and_then (generate_sample_value tn w) (\<lambda>(v, w'). Inr (Some v, w')))"
  by (auto simp: blind_def generate_sample_value_def split: option.splits)

lemmas bind_text =
  bind_blind [OF blind_sample_of_part] bind_blind [OF blind_simple_content_text]
  bind_blind [OF blind_some_sample] bind_blind [OF blind_simple_type_text]
  bind_blind [OF blind_generate_sample_value]

lemma uniform_simple_content: "uniform (simple_content m path)"
proof (rule uniformI)
  fix p w q v
  assume s: "shape p = shape q" and d: "same_draws w v"
  note pa = uniformD [OF uniform_process_attributes]
  show "rel_sum (=) alike (simple_content m path (p, w)) (simple_content m path (q, v))"
    unfolding simple_content_def using s d
    by (auto split: option.splits intro!: bind_text pa)
qed

lemma uniform_complex_content:
  assumes "\<And>c. uniform (rec c)"
  shows "uniform (complex_content g rec m path)"
proof (rule uniformI)
  fix p w q v
  assume s: "shape p = shape q" and d: "same_draws w v"
  note pa = uniformD [OF uniform_process_attributes]
  note pr = uniformD [OF assms]
  show "rel_sum (=) alike (complex_content g rec m path (p, w)) (complex_content g rec m path (q, v))"
    unfolding complex_content_def using s d
    by (auto split: option.splits intro!: bind_step pa pr)
qed


lemma uniform_process_content_model_body:
  assumes "\<And>c. uniform (rec c)"
  shows "uniform (process_content_model_body g rec m path)"
proof (rule uniformI)
  fix p w q v
  assume s: "shape p = shape q" and d: "same_draws w v"
  note pr = uniformD [OF assms]
  note cc = uniformD [OF uniform_complex_content [of rec, OF assms]]
  note sc = uniformD [OF uniform_simple_content]
  have "\<And>ds. uniform (for_each (\<lambda>c. rec (Generate_xml_element c path)) ds)"
    by (rule uniform_for_each) (rule assms)
  note each = uniformD [OF this]
  have "\<And>ds. uniform (for_each (group_skipped path) ds)"
    by (rule uniform_for_each) (rule uniform_group_skipped)
  note groups = uniformD [OF this]
  show "rel_sum (=) alike (process_content_model_body g rec m path (p, w))
          (process_content_model_body g rec m path (q, v))"
    unfolding process_content_model_body_def using s d
    by (auto split: option.splits intro!: bind_step pr cc sc each groups)
qed

lemma uniform_populate:
  assumes "\<And>c. uniform (rec c)"
  shows "uniform (populate g rec d tn path)"
proof (rule uniformI)
  fix p w q v
  assume s: "shape p = shape q" and d: "same_draws w v"
  note pr = uniformD [OF assms]
  note pa = uniformD [OF uniform_process_attributes]
  show "rel_sum (=) alike (populate g rec d tn path (p, w)) (populate g rec d tn path (q, v))"
    unfolding populate_def using s d
    by (auto split: option.splits intro!: bind_step bind_text pr pa)
qed

lemma uniform_one_instance:
  assumes "\<And>c. uniform (rec c)"
  shows "uniform (one_instance g rec d n path)"
proof (rule uniformI)
  fix p w q v
  assume s: "shape p = shape q" and d: "same_draws w v"
  note pp = uniformD [OF uniform_populate [of rec, OF assms]]
  show "rel_sum (=) alike (one_instance g rec d n path (p, w)) (one_instance g rec d n path (q, v))"
    unfolding one_instance_def using s d
    by (auto intro!: bind_pure bind_step pp shape_add_child)
qed

lemma num_occurrences_same_draws:
  "same_draws w v \<Longrightarrow>
   rel_sum (=) (\<lambda>a b. fst a = fst b \<and> same_draws (snd a) (snd b))
     (num_occurrences mn mx w) (num_occurrences mn mx v)"
  by (auto simp: num_occurrences_def randint_def random_below_half_def same_draws_def
        split: max_occurs.splits)

lemma bind_occ:
  "rel_sum (=) (\<lambda>a b. fst a = fst b \<and> same_draws (snd a) (snd b)) a b \<Longrightarrow>
   (\<And>n w v. same_draws w v \<Longrightarrow> rel_sum (=) R (h (n, w)) (h' (n, v))) \<Longrightarrow>
   rel_sum (=) R (and_then a h) (and_then b h')"
  by (cases a; cases b) auto

lemma uniform_generate_xml_element_body:
  assumes "\<And>c. uniform (rec c)"
  shows "uniform (generate_xml_element_body g rec d path)"
proof (rule uniformI)
  fix p w q v
  assume s: "shape p = shape q" and d: "same_draws w v"
  have "\<And>n cp ds. uniform (for_each (\<lambda>_. one_instance g rec d n cp) ds)"
    by (rule uniform_for_each) (rule uniform_one_instance [OF assms])
  note each = uniformD [OF this]
  show "rel_sum (=) alike (generate_xml_element_body g rec d path (p, w))
          (generate_xml_element_body g rec d path (q, v))"
    unfolding generate_xml_element_body_def using s d
    by (auto split: option.splits
          intro!: bind_pure bind_occ [OF num_occurrences_same_draws] each)
qed

lemma uniform_run: "uniform (run depth g c)"
proof (induction depth arbitrary: c)
  case 0
  show ?case by (simp add: uniform_def)
next
  case (Suc depth)
  show ?case
    by (cases c)
       (simp_all add: uniform_generate_xml_element_body uniform_process_content_model_body Suc)
qed

section \<open>Evaluating the generator on the sample schemas\<close>

lemma py_int_1: "py_int ''1'' = Inr 1"
  by (simp add: py_int_def strip_def is_space_def digit_value_def)

lemma get_occurrence_default:
  "get d ''minOccurs'' = None \<Longrightarrow> get d ''maxOccurs'' = None \<Longrightarrow>
   get_occurrence d = Inr (1, Bounded 1)"
  by (simp add: get_occurrence_def py_int_1)

lemma num_occurrences_one: "num_occurrences 1 (Bounded 1) w = Inr (1, w)"
  by (simp add: num_occurrences_def)

text \<open>
  C2. The attribute path never reads the enumeration facets: the type name of the attribute is
  resolved to the base of the restriction and handed to the value synthesizer. For an attribute
  whose inline type restricts \<^verbatim>\<open>xs:string\<close> to CRDT and DBIT, the value set on the element is
  \<^verbatim>\<open>sample_string\<close>, in every world; over the base \<^verbatim>\<open>Code\<close> it is \<^verbatim>\<open>UNKNOWN_TYPE_Code\<close>.
  The element path, given the same inline type, chooses among the enumeration values.
\<close>

theorem attribute_enumeration_ignored:
  "enum_values indicator_restriction = [Some ''CRDT'', Some ''DBIT''] \<and>
   process_attributes amount_type (e, w) =
     Inr (set_attr ''CdtDbtInd'' ''sample_string'' e, after_type_map w) \<and>
   process_attribute amount_type code_attribute (e, w) =
     Inr (set_attr ''CdtDbtInd'' ''UNKNOWN_TYPE_Code'' e, after_type_map w) \<and>
   simple_type_text code_type no_base_or_enum no_restriction w =
     Inr ([Some ''CRDT'', Some ''DBIT''] ! (val w (val_pos w) mod 2), w\<lparr>val_pos := val_pos w + 1\<rparr>)"
proof -
  have t: "get_xsd_type_name indicator_attribute = Inr (Some ''string'')"
    by (simp add: get_xsd_type_name_def indicator_attribute_def indicator_restriction_def
        xs_node_def nonempty_def get_def find_xsd_def XSD_NAMESPACE_def name_of_base_def
        startswith_def item_def)
  have v: "generate_sample_value (Some ''string'') w = Inr (''sample_string'', after_type_map w)"
    by (simp add: generate_sample_value_def lower_def lower_char_def type_map_def)
  have a: "process_attribute amount_type indicator_attribute (e, w) =
             Inr (set_attr ''CdtDbtInd'' ''sample_string'' e, after_type_map w)"
  proof -
    have "nonempty (get indicator_attribute ''name'') = Some ''CdtDbtInd''"
      by (simp add: indicator_attribute_def xs_node_def nonempty_def get_def)
    then show ?thesis
      by (simp add: process_attribute_def t v)
  qed
  have f: "findall amount_type ''attribute'' = [indicator_attribute]"
    "findall amount_type ''attributeGroup'' = []"
    by (simp_all add: findall_def amount_type_def indicator_attribute_def xs_node_def
        XSD_NAMESPACE_def)
  have en: "enum_values indicator_restriction = [Some ''CRDT'', Some ''DBIT'']"
    by (simp add: enum_values_def indicator_restriction_def findall_def xs_node_def get_def)
  have t': "get_xsd_type_name code_attribute = Inr (Some ''Code'')"
    by (simp add: get_xsd_type_name_def code_attribute_def code_type_def
        xs_node_def nonempty_def get_def find_xsd_def XSD_NAMESPACE_def name_of_base_def
        startswith_def)
  have l: "lower ''Code'' \<notin> set builtin_type_names"
    by (simp add: lower_def lower_char_def builtin_type_names_def)
  then have "map_of (type_map w) (lower ''Code'') = None"
    by (simp add: type_map_lookup_None)
  then have v': "generate_sample_value (Some ''Code'') w =
                   Inr (''UNKNOWN_TYPE_Code'', after_type_map w)"
    by (simp add: generate_sample_value_def)
  have c: "process_attribute amount_type code_attribute (e, w) =
             Inr (set_attr ''CdtDbtInd'' ''UNKNOWN_TYPE_Code'' e, after_type_map w)"
  proof -
    have "nonempty (get code_attribute ''name'') = Some ''CdtDbtInd''"
      by (simp add: code_attribute_def xs_node_def nonempty_def get_def)
    then show ?thesis
      by (simp add: process_attribute_def t' v')
  qed
  have s: "simple_type_text code_type no_base_or_enum no_restriction w =
     Inr ([Some ''CRDT'', Some ''DBIT''] ! (val w (val_pos w) mod 2), w\<lparr>val_pos := val_pos w + 1\<rparr>)"
    by (simp add: simple_type_text_def code_type_def enum_values_def choice_def findall_def
        find_xsd_def xs_node_def get_def XSD_NAMESPACE_def startswith_def numeral_2_eq_2)
  from en a c s show ?thesis
    by (simp add: process_attributes_def f)
qed

text \<open>
  C3. Type resolution raises on an inline simple type whose restriction has no \<^verbatim>\<open>base\<close>
  and on an inline complex type whose simpleContent extension has none: the test
  \<^verbatim>\<open>":" in base_type\<close> is made on \<^verbatim>\<open>None\<close>. The error ends the generation of the element.
\<close>

theorem inline_type_without_base_raises:
  "get_xsd_type_name restriction_without_base =
     Inl (TypeError ''argument of type NoneType is not iterable'') \<and>
   get_xsd_type_name extension_without_base =
     Inl (TypeError ''argument of type NoneType is not iterable'') \<and>
   generate_xml_element (Suc depth) g restriction_without_base path (parent, w) =
     Inl (TypeError ''argument of type NoneType is not iterable'')"
proof -
  have r: "get_xsd_type_name restriction_without_base =
             Inl (TypeError ''argument of type NoneType is not iterable'')"
    by (simp add: get_xsd_type_name_def restriction_without_base_def
        xs_node_def nonempty_def get_def find_xsd_def XSD_NAMESPACE_def name_of_base_def)
  have x: "get_xsd_type_name extension_without_base =
             Inl (TypeError ''argument of type NoneType is not iterable'')"
    by (simp add: get_xsd_type_name_def extension_without_base_def
        xs_node_def nonempty_def get_def find_xsd_def XSD_NAMESPACE_def name_of_base_def)
  have n: "nonempty (get restriction_without_base ''name'') = Some ''Cd''"
    by (simp add: nonempty_def get_def restriction_without_base_def xs_node_def)
  have o: "get_occurrence restriction_without_base = Inr (1, Bounded 1)"
    by (rule get_occurrence_default)
       (simp_all add: get_def restriction_without_base_def xs_node_def)
  have "generate_xml_element (Suc depth) g restriction_without_base path (parent, w) =
     Inl (TypeError ''argument of type NoneType is not iterable'')"
    by (simp add: generate_xml_element_def generate_xml_element_body_def n o num_occurrences_one
        one_instance_def r)
  with r x show ?thesis by simp
qed

text \<open>
  C5. The search joins the five \<^verbatim>\<open>find\<close> results with \<^verbatim>\<open>or\<close>, and an lxml element with no
  children is false. A complex type whose content model is \<^verbatim>\<open><xs:choice/>\<close> has a first
  present node, the choice, but the search returns nothing: the element is generated without
  the walker being called, and the warning the walker prints for such a choice never appears.
\<close>

theorem childless_content_model_skipped:
  "first_present empty_choice_type = Some empty_choice \<and>
   content_model empty_choice_type = None \<and>
   process_content_model (Suc depth) g (Some empty_choice) path (e, w) =
     Inr (e, print (ChoiceEmpty path) w) \<and>
   generate_xml_element (Suc depth) (init empty_choice_schema) empty_choice_element path
       (parent, w) =
     Inr (add_child parent (Elem ''R'' [] None []), w)"
proof -
  have fp: "first_present empty_choice_type = Some empty_choice"
    by (simp add: first_present_def empty_choice_type_def empty_choice_def xs_node_def
        find_xsd_def XSD_NAMESPACE_def)
  have cm: "content_model empty_choice_type = None"
    by (simp add: content_model_def py_or_def if_true_def empty_choice_type_def
        empty_choice_def xs_node_def find_xsd_def XSD_NAMESPACE_def)
  have walk: "process_content_model (Suc depth) g (Some empty_choice) path (e, w) =
     Inr (e, print (ChoiceEmpty path) w)"
    by (simp add: process_content_model_def process_content_model_body_def empty_choice_def
        xs_node_def find_xsd_def XSD_NAMESPACE_def)
  have n: "nonempty (get empty_choice_element ''name'') = Some ''R''"
    by (simp add: nonempty_def get_def empty_choice_element_def xs_node_def)
  have o: "get_occurrence empty_choice_element = Inr (1, Bounded 1)"
    by (rule get_occurrence_default)
       (simp_all add: get_def empty_choice_element_def xs_node_def)
  have tn: "get_xsd_type_name empty_choice_element = Inr (Some ''T'')"
    by (simp add: get_xsd_type_name_def empty_choice_element_def xs_node_def nonempty_def
        get_def type_attr_name_def startswith_def)
  have td: "get_type_definition (init empty_choice_schema) (Some ''T'') = Some empty_choice_type"
    by (simp add: get_type_definition_def init_def get_global_definitions_def findall_def
        empty_choice_schema_def empty_choice_element_def empty_choice_type_def xs_node_def
        XSD_NAMESPACE_def nonempty_def get_def startswith_def)
  have pa: "\<And>s. process_attributes empty_choice_type s = Inr s"
    by (simp add: process_attributes_def findall_def empty_choice_type_def empty_choice_def
        xs_node_def XSD_NAMESPACE_def)
  have tg: "tag empty_choice_type \<noteq> XSD_NAMESPACE @ ''simpleType''"
    by (simp add: empty_choice_type_def xs_node_def)
  have pop: "\<And>rec cp s. populate (init empty_choice_schema) rec empty_choice_element (Some ''T'')
               cp s = Inr s"
    by (simp add: populate_def td pa cm tg split: prod.splits)
  have gen: "generate_xml_element (Suc depth) (init empty_choice_schema) empty_choice_element
               path (parent, w) =
             Inr (add_child parent (Elem ''R'' [] None []), w)"
    by (simp add: generate_xml_element_def generate_xml_element_body_def n o
        num_occurrences_one one_instance_def tn pop)
  from fp cm walk gen show ?thesis by simp
qed

text \<open>The definitions a run on a concrete schema unfolds.\<close>

lemmas generator_defs =
  generate_xml_def select_root_def find_element_named_def generate_xml_element_def
  process_content_model_def generate_xml_element_body_def process_content_model_body_def
  one_instance_def populate_def complex_content_def simple_content_def simple_content_text_def
  simple_type_text_def sample_of_part_def enum_values_def group_skipped_def content_model_def
  base_content_model_def py_or_def if_true_def process_attributes_def process_attribute_def
  attribute_group_def get_xsd_type_name_def type_attr_name_def name_of_base_def
  get_type_definition_def init_def get_global_definitions_def get_occurrence_def
  num_occurrences_def randint_def random_below_half_def pick_int_def choice_def
  generate_sample_value_def lower_def lower_char_def
  nonempty_def get_def find_xsd_def findall_def XSD_NAMESPACE_def xs_node_def startswith_def
  item_def py_int_def strip_def is_space_def digit_value_def
  add_child_def set_attr_def set_text_def print_def document_def messages_def shape_of_def

lemma type_map_string: "map_of (type_map w) ''string'' = Some ''sample_string''"
  by (simp add: type_map_def)

lemma type_map_boolean:
  "map_of (type_map w) ''boolean'' = Some ([''true'', ''false''] ! (val_at w 0 mod 2))"
  by (simp add: type_map_def)

lemma type_map_decimal: "map_of (type_map w) ''decimal'' = Some (uniform_fixed 2 (val_at w 1))"
  by (simp add: type_map_def)

lemma uniform_fixed_quiet: "uniform_fixed 2 (val_at quiet i) = ''1.00''"
  by (simp add: uniform_fixed_def val_at_def quiet_def zpad_def str_nat.simps digit_char_def)

section \<open>The requested root element\<close>

text \<open>
  The empty string is the name of no global element of \<open>entries_schema\<close>, and a run that
  asks for it returns a document all the same: \<^verbatim>\<open>if root_element_name:\<close> takes the empty
  name for no name, and the first global element is used.
\<close>

theorem empty_root_name_counterexample:
  "find_element_named entries_schema [] = Inr None \<and>
   document (generate_xml 4 (init entries_schema) (Some []) quiet) =
     Inr (Elem ''Doc'' [] None
            [Elem ''Doc'' [] None [Elem ''Ntry'' [] (Some ''true'') []]])"
  by (simp add: generator_defs entries_schema_def entry_element_def quiet_def eval_nat_numeral
      type_map_boolean val_at_def)

text \<open>
  C7, amended. A requested root name that is not empty, holds no apostrophe and is the name
  of no global element declaration makes \<^verbatim>\<open>generate_xml\<close> raise \<^verbatim>\<open>ValueError\<close>, at every
  depth and in every world: nothing is generated, no random number is drawn, no document is
  returned.
\<close>

theorem missing_root_fails:
  assumes "name \<noteq> []" and "CHR 0x27 \<notin> set name"
    and "\<forall>d \<in> set (findall (schema_doc g) ''element''). get d ''name'' \<noteq> Some name"
  shows "generate_xml depth g (Some name) w =
           Inl (ValueError (''Root element '' @ [CHR 0x27] @ name @ [CHR 0x27] @ '' not found in XSD.''))"
proof -
  have "List.find (\<lambda>c. tag c = XSD_NAMESPACE @ ''element'' \<and> get c ''name'' = Some name)
          (children (schema_doc g)) = None"
    using assms(3) by (auto simp: find_None_iff findall_def)
  with assms(2) have "find_element_named (schema_doc g) name = Inr None"
    by (simp add: find_element_named_def)
  with assms(1) show ?thesis
    by (simp add: generate_xml_def select_root_def nonempty_def)
qed

theorem missing_root_fails_witness:
  "generate_xml 4 (init entries_schema) (Some ''Nope'') quiet =
     Inl (ValueError (''Root element '' @ [CHR 0x27] @ ''Nope'' @ [CHR 0x27] @ '' not found in XSD.''))"
proof -
  have "\<forall>d \<in> set (findall (schema_doc (init entries_schema)) ''element'').
          get d ''name'' \<noteq> Some ''Nope''"
    by (simp add: init_def entries_schema_def findall_def xs_node_def get_def)
  from missing_root_fails [OF _ _ this, of 4 quiet] show ?thesis
    by simp
qed

section \<open>What an element declaration adds to its parent\<close>

lemma find_first: "List.find P ys = (case filter P ys of [] \<Rightarrow> None | y # _ \<Rightarrow> Some y)"
  by (induction ys) auto

lemma find_xsd_findall: "find_xsd m t = (case findall m t of [] \<Rightarrow> None | y # _ \<Rightarrow> Some y)"
  by (simp add: find_xsd_def findall_def find_first)

lemma one_instance_adds:
  assumes "\<And>c. growing (rec c)" and "one_instance g rec d n cp (p, w) = Inr (p', w')"
  shows "\<exists>c. p' = add_child p c \<and> xtag c = n"
proof -
  from assms(2) obtain tn e where
    pop: "populate g rec d tn cp (Elem n [] None [], w) = Inr (e, w')" and p': "p' = add_child p e"
    by (auto simp: one_instance_def and_then_Inr)
  from growingE [OF growing_populate [of rec, OF assms(1)] pop]
  have "extends (Elem n [] None []) e" .
  then have "xtag e = n" by (simp add: extends_def)
  with p' show ?thesis by blast
qed

lemma instances_add:
  assumes "\<And>c. growing (rec c)"
  shows "for_each (\<lambda>_. one_instance g rec d n cp) us (p, w) = Inr (p', w') \<Longrightarrow>
         \<exists>new. length new = length us \<and> p' = foldl add_child p new \<and> (\<forall>c \<in> set new. xtag c = n)"
proof (induction us arbitrary: p w)
  case Nil
  then show ?case by simp
next
  case (Cons u us)
  from Cons.prems obtain p1 w1 where
    one: "one_instance g rec d n cp (p, w) = Inr (p1, w1)" and
    rest: "for_each (\<lambda>_. one_instance g rec d n cp) us (p1, w1) = Inr (p', w')"
    by (auto simp: and_then_Inr)
  from one_instance_adds [OF assms one] obtain c where c: "p1 = add_child p c" "xtag c = n"
    by blast
  from Cons.IH [OF rest] obtain new where
    new: "length new = length us" "p' = foldl add_child p1 new" "\<forall>c \<in> set new. xtag c = n"
    by blast
  from c new have "length (c # new) = length (u # us) \<and> p' = foldl add_child p (c # new) \<and>
      (\<forall>x \<in> set (c # new). xtag x = n)"
    by simp
  then show ?case by blast
qed

lemma nothing_new: "\<exists>new. q = foldl add_child q new \<and> (\<forall>c \<in> set new. P c)"
  by (rule exI [of _ "[]"]) simp

lemma generate_adds:
  assumes "\<And>c. growing (rec c)"
    and "generate_xml_element_body g rec d path (p, w) = Inr (p', w')"
  shows "\<exists>new. p' = foldl add_child p new \<and>
           (\<forall>c \<in> set new. Some (xtag c) = nonempty (get d ''name''))"
proof (cases "nonempty (get d ''name'')")
  case None
  with assms(2) have "p' = p"
    by (simp add: generate_xml_element_body_def)
  then show ?thesis by (simp add: nothing_new)
next
  case (Some n)
  from assms(2) Some show ?thesis
    by (auto simp: generate_xml_element_body_def and_then_Inr nothing_new split: if_splits
          dest!: instances_add [OF assms(1)])
qed

lemma generate_once:
  assumes "\<And>c. growing (rec c)"
    and "nonempty (get d ''name'') = Some n"
    and "get_occurrence d = Inr (1, Bounded 1)"
    and "generate_xml_element_body g rec d path (p, w) = Inr (p', w')"
  shows "\<exists>c. p' = add_child p c \<and> xtag c = n"
proof -
  from assms(2-4) have "one_instance g rec d n (path @ ''/'' @ n) (p, w) = Inr (p', w')"
    by (simp add: generate_xml_element_body_def num_occurrences_one and_then_Inr)
  then show ?thesis by (rule one_instance_adds [OF assms(1)])
qed

text \<open>
  C8. The walker hands a choice to the element generator with its first element child and
  nothing else: every child the parent gains is an instance of that first alternative, and it
  is exactly one child when that alternative has a name and the bounds one and one. A choice
  with no element child leaves the element as it is and prints one warning.
\<close>

theorem choice_generates_first_alternative:
  assumes "tag m = XSD_NAMESPACE @ ''choice''"
  shows "case findall m ''element'' of
           [] \<Rightarrow>
             process_content_model (Suc depth) g (Some m) path (p, w) =
               Inr (p, print (ChoiceEmpty path) w)
         | first_choice # others \<Rightarrow>
             process_content_model (Suc depth) g (Some m) path (p, w) =
               generate_xml_element depth g first_choice path (p, w) \<and>
             (\<forall>p' w'. process_content_model (Suc depth) g (Some m) path (p, w) = Inr (p', w') \<longrightarrow>
                (\<exists>new. p' = foldl add_child p new \<and>
                   (\<forall>c \<in> set new. Some (xtag c) = nonempty (get first_choice ''name'')) \<and>
                   (get_occurrence first_choice = Inr (1, Bounded 1) \<and>
                    nonempty (get first_choice ''name'') \<noteq> None \<longrightarrow> length new = 1)))"
proof (cases "findall m ''element''")
  case Nil
  with assms show ?thesis
    by (simp add: process_content_model_def process_content_model_body_def find_xsd_findall)
next
  case (Cons first_choice others)
  with assms have eq: "process_content_model (Suc depth) g (Some m) path (p, w) =
      generate_xml_element depth g first_choice path (p, w)"
    by (simp add: process_content_model_def process_content_model_body_def find_xsd_findall
        generate_xml_element_def)
  have "\<exists>new. p' = foldl add_child p new \<and>
           (\<forall>c \<in> set new. Some (xtag c) = nonempty (get first_choice ''name'')) \<and>
           (get_occurrence first_choice = Inr (1, Bounded 1) \<and>
            nonempty (get first_choice ''name'') \<noteq> None \<longrightarrow> length new = 1)"
    if "generate_xml_element depth g first_choice path (p, w) = Inr (p', w')" for p' w'
  proof (cases depth)
    case 0
    with that show ?thesis by (simp add: generate_xml_element_def)
  next
    case (Suc k)
    with that have body:
      "generate_xml_element_body g (run k g) first_choice path (p, w) = Inr (p', w')"
      by (simp add: generate_xml_element_def)
    show ?thesis
    proof (cases "get_occurrence first_choice = Inr (1, Bounded 1) \<and>
                  nonempty (get first_choice ''name'') \<noteq> None")
      case True
      then obtain n where n: "nonempty (get first_choice ''name'') = Some n"
        by blast
      from generate_once [OF growing_run n _ body] True obtain c where
        "p' = add_child p c" "xtag c = n"
        by blast
      with n True have "p' = foldl add_child p [c] \<and>
           (\<forall>x \<in> set [c]. Some (xtag x) = nonempty (get first_choice ''name'')) \<and>
           length [c] = 1"
        by simp
      then show ?thesis by blast
    next
      case False
      with generate_adds [OF growing_run body] show ?thesis by blast
    qed
  qed
  with eq Cons show ?thesis by simp
qed

theorem choice_generates_first_alternative_witness:
  "tag a_or_b = XSD_NAMESPACE @ ''choice'' \<and>
   findall a_or_b ''element'' =
     [xs_node ''element'' [(''name'', ''A'')] [], xs_node ''element'' [(''name'', ''B'')] []] \<and>
   document (process_content_model (Suc (Suc 0)) (init entries_schema) (Some a_or_b) []
               (Elem ''P'' [] None [], quiet)) =
     Inr (Elem ''P'' [] None [Elem ''A'' [] (Some ''sample_string'') []])"
proof -
  have t: "tag a_or_b = XSD_NAMESPACE @ ''choice''"
    by (simp add: a_or_b_def xs_node_def)
  have f: "findall a_or_b ''element'' =
     [xs_node ''element'' [(''name'', ''A'')] [], xs_node ''element'' [(''name'', ''B'')] []]"
    by (simp add: a_or_b_def xs_node_def findall_def XSD_NAMESPACE_def)
  have g: "document (generate_xml_element (Suc 0) (init entries_schema)
                       (xs_node ''element'' [(''name'', ''A'')] []) []
                       (Elem ''P'' [] None [], quiet)) =
     Inr (Elem ''P'' [] None [Elem ''A'' [] (Some ''sample_string'') []])"
    by (simp add: generator_defs entries_schema_def entry_element_def type_map_string)
  from choice_generates_first_alternative
         [OF t, of "Suc 0" "init entries_schema" "[]" "Elem ''P'' [] None []" quiet] f
  have "process_content_model (Suc (Suc 0)) (init entries_schema) (Some a_or_b) []
          (Elem ''P'' [] None [], quiet) =
        generate_xml_element (Suc 0) (init entries_schema)
          (xs_node ''element'' [(''name'', ''A'')] []) [] (Elem ''P'' [] None [], quiet)"
    by simp
  with t f g show ?thesis by simp
qed

text \<open>
  An element declared by \<^verbatim>\<open>ref\<close> has the default bounds, one and one, and no \<^verbatim>\<open>name\<close>: the
  generator skips it with a warning and the parent gains no child.
\<close>

theorem reference_element_counterexample:
  "get_occurrence reference_element = Inr (1, Bounded 1) \<and>
   document (generate_xml_element (Suc 0) (init entries_schema) reference_element ''/Doc''
               (Elem ''Doc'' [] None [], quiet)) =
     Inr (Elem ''Doc'' [] None []) \<and>
   messages (generate_xml_element (Suc 0) (init entries_schema) reference_element ''/Doc''
               (Elem ''Doc'' [] None [], quiet)) =
     Inr [UnnamedElementSkipped ''/Doc'']"
  by (simp add: generator_defs reference_element_def entries_schema_def entry_element_def
      quiet_def)

text \<open>
  C9, amended. For an element declaration with a name that is not empty and with bounds one
  and one, the sampler returns 1 without a draw, and every run that returns adds exactly one
  child to the parent, with the declared name, and changes nothing else of the parent.
\<close>

theorem one_instance_of_named_element:
  assumes "nonempty (get d ''name'') = Some n"
    and "get_occurrence d = Inr (1, Bounded 1)"
    and "generate_xml_element (Suc depth) g d path (p, w) = Inr (p', w')"
  shows "num_occurrences 1 (Bounded 1) w = Inr (1, w) \<and> (\<exists>c. p' = add_child p c \<and> xtag c = n)"
proof -
  from assms(3) have "generate_xml_element_body g (run depth g) d path (p, w) = Inr (p', w')"
    by (simp add: generate_xml_element_def)
  from generate_once [OF growing_run assms(1,2) this] show ?thesis
    by (simp add: num_occurrences_one)
qed

theorem one_instance_of_named_element_witness:
  "get_occurrence plain_element = Inr (1, Bounded 1) \<and>
   generate_xml_element (Suc 0) (init entries_schema) plain_element []
       (Elem ''P'' [] None [], quiet) =
     Inr (Elem ''P'' [] None [Elem ''Amount'' [] (Some ''1.00'') []], after_type_map quiet) \<and>
   (\<exists>c. Elem ''P'' [] None [Elem ''Amount'' [] (Some ''1.00'') []] =
          add_child (Elem ''P'' [] None []) c \<and> xtag c = ''Amount'')"
proof -
  have n: "nonempty (get plain_element ''name'') = Some ''Amount''"
    by (simp add: plain_element_def xs_node_def nonempty_def get_def)
  have o: "get_occurrence plain_element = Inr (1, Bounded 1)"
    by (rule get_occurrence_default) (simp_all add: plain_element_def xs_node_def get_def)
  have r: "generate_xml_element (Suc 0) (init entries_schema) plain_element []
       (Elem ''P'' [] None [], quiet) =
     Inr (Elem ''P'' [] None [Elem ''Amount'' [] (Some ''1.00'') []], after_type_map quiet)"
    by (simp add: generator_defs plain_element_def entries_schema_def entry_element_def
        type_map_decimal uniform_fixed_quiet)
  from one_instance_of_named_element [OF n o r] o r show ?thesis by simp
qed

section \<open>Two runs over one schema\<close>

text \<open>
  The element \<^verbatim>\<open>Ntry\<close> of \<open>entries_schema\<close> has the bounds one and unbounded, so it is not
  optional. The run in the world \<open>quiet\<close> makes one instance of it and the run in the world
  \<open>busy\<close> makes two: two runs over one schema whose tag structures differ, in something
  else than a leaf value or the presence of an optional element.
\<close>

theorem repetition_count_counterexample:
  "get_occurrence entry_element = Inr (1, Unbounded) \<and>
   shape_of (generate_xml 4 (init entries_schema) (Some ''Doc'') quiet) =
     Inr (Skeleton ''Doc'' [] [Skeleton ''Doc'' [] [Skeleton ''Ntry'' [] []]]) \<and>
   shape_of (generate_xml 4 (init entries_schema) (Some ''Doc'') busy) =
     Inr (Skeleton ''Doc'' []
            [Skeleton ''Doc'' [] [Skeleton ''Ntry'' [] [], Skeleton ''Ntry'' [] []]])"
  by (simp add: generator_defs entries_schema_def entry_element_def quiet_def busy_def
      eval_nat_numeral type_map_boolean val_at_def)

lemma select_root_same_draws:
  "same_draws w v \<Longrightarrow>
   rel_sum (=) (\<lambda>a b. fst a = fst b \<and> same_draws (snd a) (snd b))
     (select_root g r w) (select_root g r v)"
  unfolding select_root_def
  by (auto split: option.splits intro!: bind_pure)

lemma alike_shape_of: "rel_sum (=) alike a b \<Longrightarrow> shape_of a = shape_of b"
  by (cases a; cases b) (auto simp: shape_of_def alike_def)

text \<open>
  C4, amended. Two runs over the same schema that make the same occurrence draws end alike:
  with the same error, or with documents of the same tag structure and the same attribute
  names. The values drawn and the clock may differ between the two runs; they change texts
  and attribute values only.
\<close>

theorem same_draws_same_structure:
  assumes "same_draws w v"
  shows "shape_of (generate_xml depth g root_element_name w) =
         shape_of (generate_xml depth g root_element_name v)"
proof -
  have "rel_sum (=) alike (generate_xml depth g root_element_name w)
          (generate_xml depth g root_element_name v)"
    unfolding generate_xml_def
  proof (rule bind_occ [OF select_root_same_draws [OF assms]])
    fix d w' v'
    assume "same_draws w' v'"
    then show "rel_sum (=) alike
        (case (d, w') of (selected_root_xsd_element, w') \<Rightarrow>
           case get selected_root_xsd_element ''name'' of
             None \<Rightarrow> Inl (TypeError ''Argument must be bytes or unicode, got NoneType'')
           | Some root_name \<Rightarrow>
               generate_xml_element depth g selected_root_xsd_element []
                 (Elem root_name [] None [], w'))
        (case (d, v') of (selected_root_xsd_element, w') \<Rightarrow>
           case get selected_root_xsd_element ''name'' of
             None \<Rightarrow> Inl (TypeError ''Argument must be bytes or unicode, got NoneType'')
           | Some root_name \<Rightarrow>
               generate_xml_element depth g selected_root_xsd_element []
                 (Elem root_name [] None [], w'))"
      by (auto simp: generate_xml_element_def split: option.splits
            intro!: uniformD [OF uniform_run])
  qed
  then show ?thesis by (rule alike_shape_of)
qed

theorem same_draws_same_structure_witness:
  "same_draws quiet other_values \<and>
   document (generate_xml 4 (init entries_schema) (Some ''Doc'') quiet) =
     Inr (Elem ''Doc'' [] None [Elem ''Doc'' [] None [Elem ''Ntry'' [] (Some ''true'') []]]) \<and>
   document (generate_xml 4 (init entries_schema) (Some ''Doc'') other_values) =
     Inr (Elem ''Doc'' [] None [Elem ''Doc'' [] None [Elem ''Ntry'' [] (Some ''false'') []]]) \<and>
   shape_of (generate_xml 4 (init entries_schema) (Some ''Doc'') quiet) =
     shape_of (generate_xml 4 (init entries_schema) (Some ''Doc'') other_values)"
proof -
  have s: "same_draws quiet other_values"
    by (simp add: same_draws_def other_values_def)
  have a: "document (generate_xml 4 (init entries_schema) (Some ''Doc'') quiet) =
     Inr (Elem ''Doc'' [] None [Elem ''Doc'' [] None [Elem ''Ntry'' [] (Some ''true'') []]])"
    by (simp add: generator_defs entries_schema_def entry_element_def quiet_def
        eval_nat_numeral type_map_boolean val_at_def)
  have b: "document (generate_xml 4 (init entries_schema) (Some ''Doc'') other_values) =
     Inr (Elem ''Doc'' [] None [Elem ''Doc'' [] None [Elem ''Ntry'' [] (Some ''false'') []]])"
    by (simp add: generator_defs entries_schema_def entry_element_def quiet_def other_values_def
        eval_nat_numeral type_map_boolean val_at_def)
  from same_draws_same_structure [OF s, of 4 "init entries_schema" "Some ''Doc''"] s a b
  show ?thesis by simp
qed

section \<open>The extension of a complex content\<close>

lemmas derived_defs =
  derived_schema_def base_type_def choice_extension_def sequence_extension_def by_choice_def
  by_sequence_def extension_as_specified_def first_present_def

text \<open>
  The type \<^verbatim>\<open>ByChoice\<close> extends \<^verbatim>\<open>Base\<close> by a choice that holds the element \<^verbatim>\<open>B\<close>. The
  walker generates the \<^verbatim>\<open>A\<close> of the base and stops: of the extension's own content it looks
  for a \<^verbatim>\<open>sequence\<close> only. The extension as the specification words it would add \<^verbatim>\<open>B\<close>.
\<close>

theorem extension_by_choice_counterexample:
  "find_xsd by_choice ''extension'' = Some choice_extension \<and>
   document (process_content_model 4 (init derived_schema) (Some by_choice) []
               (Elem ''E'' [] None [], quiet)) =
     Inr (Elem ''E'' [] None [Elem ''A'' [] (Some ''sample_string'') []]) \<and>
   document (extension_as_specified 3 (init derived_schema) choice_extension []
               (Elem ''E'' [] None [], quiet)) =
     Inr (Elem ''E'' [] None
            [Elem ''A'' [] (Some ''sample_string'') [], Elem ''B'' [] (Some ''sample_string'') []])"
  by (simp add: generator_defs derived_defs quiet_def eval_nat_numeral type_map_string)

lemma childless_definition:
  "children d = [] \<Longrightarrow> process_attributes d s = Inr s \<and> base_content_model d = None"
  by (simp add: process_attributes_def findall_def base_content_model_def py_or_def if_true_def
      find_xsd_def)

lemma extends_children: "extends p q \<Longrightarrow> prefix (xchildren p) (xchildren q)"
  by (simp add: extends_def)

text \<open>
  C6, amended. When the base type name of a complexContent extension is in the registry, the
  walker applies the base type's attributes and the content model its search finds in the base
  type, then the extension's attributes and, if the extension has a \<^verbatim>\<open>sequence\<close> child, that
  sequence. Each step only appends children, so what the extension adds stands after what the
  base has added.
\<close>

theorem extension_after_base:
  assumes "tag m = XSD_NAMESPACE @ ''complexContent''"
    and "find_xsd m ''extension'' = Some extension"
    and "get_type_definition g (get extension ''base'') = Some base"
    and "process_content_model (Suc depth) g (Some m) path (p, w) = Inr (p', w')"
  shows "\<exists>p1 w1 p2 w2.
     process_attributes base (p, w) = Inr (p1, w1) \<and>
     (case base_content_model base of
        Some base_model \<Rightarrow> process_content_model depth g (Some base_model) path (p1, w1)
      | None \<Rightarrow> Inr (p1, w1)) = Inr (p2, w2) \<and>
     and_then (process_attributes extension (p2, w2))
       (\<lambda>s. case find_xsd extension ''sequence'' of
               Some sequence \<Rightarrow> process_content_model depth g (Some sequence) path s
             | None \<Rightarrow> Inr s) = Inr (p', w') \<and>
     prefix (xchildren p) (xchildren p2) \<and> prefix (xchildren p2) (xchildren p')"
proof -
  let ?ext = "\<lambda>s. and_then (process_attributes extension s)
       (\<lambda>s. case find_xsd extension ''sequence'' of
               Some sequence \<Rightarrow> run depth g (Process_content_model (Some sequence) path) s
             | None \<Rightarrow> Inr s)"
  let ?base = "\<lambda>s. case base_content_model base of
        Some base_model \<Rightarrow> run depth g (Process_content_model (Some base_model) path) s
      | None \<Rightarrow> Inr s"
  have cc: "complex_content g (run depth g) m path (p, w) = Inr (p', w')"
    using assms(1,4)
    by (simp add: process_content_model_def process_content_model_body_def)
  have "\<exists>p1 w1 p2 w2. process_attributes base (p, w) = Inr (p1, w1) \<and>
          ?base (p1, w1) = Inr (p2, w2) \<and> ?ext (p2, w2) = Inr (p', w')"
  proof (cases "children base = []")
    case True
    with assms(3) have "if_true (get_type_definition g (get extension ''base'')) = None"
      by (simp add: if_true_def)
    with cc assms(2) have "?ext (p, w) = Inr (p', w')"
      by (simp add: complex_content_def)
    with childless_definition [OF True] show ?thesis
      by simp
  next
    case False
    with assms(3) have "if_true (get_type_definition g (get extension ''base'')) = Some base"
      by (simp add: if_true_def)
    with cc assms(2) show ?thesis
      by (auto simp: complex_content_def and_then_Inr split: option.splits)
  qed
  then obtain p1 w1 p2 w2 where
    a: "process_attributes base (p, w) = Inr (p1, w1)" and
    b: "?base (p1, w1) = Inr (p2, w2)" and
    c: "?ext (p2, w2) = Inr (p', w')"
    by blast
  from a have 1: "extends p p1"
    by (rule growingE [OF growing_process_attributes])
  from b have 2: "extends p1 p2"
    by (cases "base_content_model base") (auto elim: growingE [OF growing_run])
  have "growing (\<lambda>s. case find_xsd extension ''sequence'' of
               Some sequence \<Rightarrow> run depth g (Process_content_model (Some sequence) path) s
             | None \<Rightarrow> Inr s)"
  proof (cases "find_xsd extension ''sequence''")
    case None
    then show ?thesis by (simp add: growing_def)
  next
    case (Some sequence)
    then show ?thesis by (simp add: growing_run)
  qed
  then have "growing ?ext"
    by (rule growing_and_then [OF growing_process_attributes])
  from growingE [OF this c] have 3: "extends p2 p'" .
  from 1 2 have "prefix (xchildren p) (xchildren p2)"
    by (blast intro: extends_trans extends_children)
  with 3 a b c show ?thesis
    unfolding process_content_model_def by (blast intro: extends_children)
qed

lemma document_Inr: "document r = Inr x \<Longrightarrow> \<exists>w. r = Inr (x, w)"
  by (cases r) (auto simp: document_def)

theorem extension_after_base_witness:
  "document (process_content_model (Suc 3) (init derived_schema) (Some by_sequence) []
               (Elem ''E'' [] None [], quiet)) =
     Inr (Elem ''E'' [] None
            [Elem ''A'' [] (Some ''sample_string'') [], Elem ''B'' [] (Some ''sample_string'') []]) \<and>
   (\<exists>p2 w2. document (and_then (process_attributes base_type (Elem ''E'' [] None [], quiet))
                 (process_content_model 3 (init derived_schema) (base_content_model base_type) []))
               = Inr p2 \<and>
            prefix (xchildren p2)
              [Elem ''A'' [] (Some ''sample_string'') [], Elem ''B'' [] (Some ''sample_string'') []])"
proof -
  let ?g = "init derived_schema"
  let ?X = "Elem ''E'' [] None
            [Elem ''A'' [] (Some ''sample_string'') [], Elem ''B'' [] (Some ''sample_string'') []]"
  have t: "tag by_sequence = XSD_NAMESPACE @ ''complexContent''"
    by (simp add: by_sequence_def xs_node_def)
  have f: "find_xsd by_sequence ''extension'' = Some sequence_extension"
    by (simp add: by_sequence_def sequence_extension_def xs_node_def find_xsd_def XSD_NAMESPACE_def)
  have b: "get_type_definition ?g (get sequence_extension ''base'') = Some base_type"
    by (simp add: generator_defs derived_defs)
  have d: "document (process_content_model (Suc 3) ?g (Some by_sequence) []
               (Elem ''E'' [] None [], quiet)) = Inr ?X"
    by (simp add: generator_defs derived_defs quiet_def eval_nat_numeral type_map_string)
  then obtain w' where r: "process_content_model (Suc 3) ?g (Some by_sequence) []
               (Elem ''E'' [] None [], quiet) = Inr (?X, w')"
    by (blast dest: document_Inr)
  from extension_after_base [OF t f b r] obtain p1 w1 p2 w2 where
    1: "process_attributes base_type (Elem ''E'' [] None [], quiet) = Inr (p1, w1)" and
    2: "(case base_content_model base_type of
          Some base_model \<Rightarrow> process_content_model 3 ?g (Some base_model) [] (p1, w1)
        | None \<Rightarrow> Inr (p1, w1)) = Inr (p2, w2)" and
    3: "prefix (xchildren p2) (xchildren ?X)"
    by blast
  have m: "base_content_model base_type \<noteq> None"
    by (simp add: generator_defs derived_defs)
  from 1 2 m have "document (and_then (process_attributes base_type (Elem ''E'' [] None [], quiet))
                 (process_content_model 3 ?g (base_content_model base_type) [])) = Inr p2"
    by (auto simp: document_def)
  with 3 d show ?thesis by auto
qed

end
